theory Spec2Isabelle
  imports Complex_Main "HOL-Library.Log_Nat"
begin

section \<open>JavaScript numbers\<close>

text \<open>
  A JavaScript number is an IEEE 754 binary64 value. \<open>Finite m e\<close> stands for the
  non-negative value \<open>m * 2 ^ e\<close>; every operation below returns the mantissa in
  \<open>[2 ^ 52, 2 ^ 53)\<close> (or \<open>Finite 0 0\<close> for zero), so equal values are equal terms. Only
  what the handlers compute is modelled: quotients of non-negative integers, products and
  quotients by a positive integer constant, \<open>Math.round\<close> and comparison. The counts the
  handlers work on are far inside the normal range of binary64, so overflow and subnormal
  values do not arise and are not modelled.
\<close>

datatype double = Finite int int | Infinity | NaN

text \<open>
  \<open>rnd p q\<close> is the binary64 value nearest to the exact quotient \<open>p / q\<close> (\<open>0 \<le> p\<close>,
  \<open>0 < q\<close>), ties to the even mantissa: the result every IEEE operation returns for an
  exact result \<open>p / q\<close>. \<open>exponent p q\<close> is the binary exponent \<open>e\<close> of the quotient
  (\<open>2 ^ e \<le> p / q < 2 ^ (e + 1)\<close>), \<open>N / D\<close> the quotient scaled into
  \<open>[2 ^ 52, 2 ^ 53)\<close>, \<open>round_half_even N D\<close> the integer nearest to \<open>N / D\<close>.
\<close>

definition exponent :: "int \<Rightarrow> int \<Rightarrow> int" where
  "exponent p q =
     (let k = bitlen p - bitlen q
      in if (if 0 \<le> k then q * 2 ^ nat k \<le> p else q \<le> p * 2 ^ nat (- k)) then k else k - 1)"

definition round_half_even :: "int \<Rightarrow> int \<Rightarrow> int" where
  "round_half_even N D =
     (let m0 = N div D; r = N mod D
      in if 2 * r < D \<or> (2 * r = D \<and> even m0) then m0 else m0 + 1)"

definition rnd :: "int \<Rightarrow> int \<Rightarrow> double" where
  "rnd p q =
     (if p \<le> 0 then Finite 0 0
      else
        let e = exponent p q;
            s = 52 - e;
            N = (if 0 \<le> s then p * 2 ^ nat s else p);
            D = (if 0 \<le> s then q else q * 2 ^ nat (- s));
            m = round_half_even N D
        in if m = 2 ^ 53 then Finite (2 ^ 52) (e - 51) else Finite m (e - 52))"

text \<open>The exact value of a finite double.\<close>

fun dval :: "double \<Rightarrow> rat" where
  "dval (Finite m e) =
     (if 0 \<le> e then of_int (m * 2 ^ nat e) else of_int m / of_int (2 ^ nat (- e)))"
| "dval Infinity = 0"
| "dval NaN = 0"

text \<open>\<open>parseInt(a) / parseInt(b)\<close> for counts \<open>a\<close>, \<open>b\<close> (non-negative integers).\<close>

definition js_div_int :: "int \<Rightarrow> int \<Rightarrow> double" where
  "js_div_int a b = (if b = 0 then (if a = 0 then NaN else Infinity) else rnd a b)"

text \<open>\<open>x * n\<close> and \<open>x / n\<close> for a positive integer constant \<open>n\<close>.\<close>

fun js_times :: "double \<Rightarrow> int \<Rightarrow> double" where
  "js_times (Finite m e) n =
     (if 0 \<le> e then rnd (m * n * 2 ^ nat e) 1 else rnd (m * n) (2 ^ nat (- e)))"
| "js_times Infinity n = Infinity"
| "js_times NaN n = NaN"

fun js_over :: "double \<Rightarrow> int \<Rightarrow> double" where
  "js_over (Finite m e) n =
     (if 0 \<le> e then rnd (m * 2 ^ nat e) n else rnd m (n * 2 ^ nat (- e)))"
| "js_over Infinity n = Infinity"
| "js_over NaN n = NaN"

text \<open>
  \<open>Math.round(x)\<close>: the integer closest to \<open>x\<close>, the one closer to \<open>+\<infinity>\<close> when two are
  equally close; that is \<open>\<lfloor>x + 1/2\<rfloor>\<close>, computed exactly.
\<close>

fun Math_round :: "double \<Rightarrow> double" where
  "Math_round (Finite m e) =
     (if 0 \<le> e then Finite m e
      else rnd ((2 * m + 2 ^ nat (- e)) div (2 * 2 ^ nat (- e))) 1)"
| "Math_round Infinity = Infinity"
| "Math_round NaN = NaN"

text \<open>\<open>x < n\<close> for an integer constant \<open>n\<close>; a comparison with \<open>NaN\<close> is false.\<close>

fun js_less :: "double \<Rightarrow> int \<Rightarrow> bool" where
  "js_less (Finite m e) n = (dval (Finite m e) < of_int n)"
| "js_less Infinity n = False"
| "js_less NaN n = False"

text \<open>
  \<open>(parseInt(completed_chapters) / parseInt(total_chapters)) * 100\<close>, and the rounding
  \<open>Math.round(percentage * 100) / 100\<close> both handlers apply to it.
\<close>

definition completionPercentage :: "int \<Rightarrow> int \<Rightarrow> double" where
  "completionPercentage completed_n total_n = js_times (js_div_int completed_n total_n) 100"

definition round2 :: "double \<Rightarrow> double" where
  "round2 x = js_over (Math_round (js_times x 100)) 100"

text \<open>
  The double a decimal literal with two fractional digits denotes, \<open>h\<close> being the number
  of hundredths: \<open>33.33\<close> is \<open>literal2 3333\<close>.
\<close>

definition literal2 :: "int \<Rightarrow> double" where
  "literal2 h = rnd h 100"


section \<open>The relational store\<close>

text \<open>
  The controllers keep no state of their own: every handler reads and writes the tables
  \<open>users\<close>, \<open>courses\<close>, \<open>chapters\<close>, \<open>course_assignments\<close>, \<open>progress\<close> and
  \<open>certificates\<close> through SQL statements. A table is the list of its rows, in the order the
  store returns them. The row types follow \<open>types/index.ts\<close>. Identifiers are strings in the
  source and are only ever compared for equality, so the row types are parametric in the
  identifier type \<open>'id\<close>. Timestamps are natural numbers; the value of \<open>NOW()\<close> and the
  identifier the store generates for an inserted row are arguments of the handlers.
\<close>

datatype user_role = STUDENT | MENTOR | ADMIN

record 'id user_row =
  u_id :: 'id
  u_email :: string
  u_full_name :: string
  u_role :: user_role
  u_is_approved :: bool

record 'id course_row =
  c_id :: 'id
  c_title :: string
  c_description :: string
  c_mentor_id :: 'id

record 'id chapter_row =
  ch_id :: 'id
  ch_course_id :: 'id
  ch_title :: string
  ch_description :: "string option"
  ch_image_url :: "string option"
  ch_video_url :: "string option"
  sequence_order :: int

record 'id assignment_row =
  ca_id :: 'id
  ca_course_id :: 'id
  ca_student_id :: 'id
  ca_assigned_at :: nat

record 'id progress_row =
  p_id :: 'id
  p_student_id :: 'id
  p_chapter_id :: 'id
  p_course_id :: 'id
  p_completed :: bool
  p_completed_at :: "nat option"
  p_created_at :: nat
  p_updated_at :: nat

record 'id certificate_row =
  cert_id :: 'id
  cert_student_id :: 'id
  cert_course_id :: 'id
  cert_issued_at :: nat
  cert_certificate_url :: "string option"

record 'id store =
  users :: "'id user_row list"
  courses :: "'id course_row list"
  chapters :: "'id chapter_row list"
  course_assignments :: "'id assignment_row list"
  progress :: "'id progress_row list"
  certificates :: "'id certificate_row list"

subsection \<open>SQL building blocks\<close>

text \<open>
  \<open>xs LEFT JOIN ys ON cond\<close>: every row of \<open>xs\<close> is paired with each matching row of
  \<open>ys\<close>, or once with \<open>NULL\<close> (\<open>None\<close>) when nothing matches.
\<close>

definition left_join :: "'a list \<Rightarrow> ('a \<Rightarrow> 'b list) \<Rightarrow> ('a \<times> 'b option) list" where
  "left_join xs matching =
     concat (map (\<lambda>x. case matching x of
                         [] \<Rightarrow> [(x, None)]
                       | y # ys \<Rightarrow> map (\<lambda>y'. (x, Some y')) (y # ys)) xs)"

text \<open>\<open>SELECT id FROM course_assignments WHERE course_id = $1 AND student_id = $2\<close>\<close>

definition enrollmentCheck :: "'id store \<Rightarrow> 'id \<Rightarrow> 'id \<Rightarrow> 'id assignment_row list" where
  "enrollmentCheck db courseId studentId =
     [ca \<leftarrow> course_assignments db. ca_course_id ca = courseId \<and> ca_student_id ca = studentId]"

text \<open>\<open>chapters ch LEFT JOIN progress p ON ch.id = p.chapter_id AND p.student_id = $1\<close>\<close>

definition progress_of :: "'id store \<Rightarrow> 'id \<Rightarrow> 'id \<Rightarrow> 'id progress_row list" where
  "progress_of db studentId chapterId =
     [p \<leftarrow> progress db. p_chapter_id p = chapterId \<and> p_student_id p = studentId]"

definition course_chapters :: "'id store \<Rightarrow> 'id \<Rightarrow> 'id chapter_row list" where
  "course_chapters db courseId = [ch \<leftarrow> chapters db. ch_course_id ch = courseId]"

text \<open>
  The value of the column \<open>p.completed\<close> in a joined row: \<open>NULL\<close> when the chapter has no
  progress row for the student.
\<close>

definition completed_col :: "'id progress_row option \<Rightarrow> bool option" where
  "completed_col p = map_option p_completed p"

text \<open>
  The query of the sequential gate:
  \<open>SELECT p.completed FROM chapters ch LEFT JOIN progress p ON ch.id = p.chapter_id AND
  p.student_id = $1 WHERE ch.course_id = $2 AND ch.sequence_order = $3\<close>.
\<close>

definition previousChapterCheck :: "'id store \<Rightarrow> 'id \<Rightarrow> 'id \<Rightarrow> int \<Rightarrow> bool option list" where
  "previousChapterCheck db studentId courseId n =
     map (\<lambda>(ch, p). completed_col p)
       (left_join [ch \<leftarrow> chapters db. ch_course_id ch = courseId \<and> sequence_order ch = n]
          (\<lambda>ch. progress_of db studentId (ch_id ch)))"

text \<open>
  \<open>rows.length === 0 || !rows[0].completed\<close>: a \<open>NULL\<close> and a \<open>false\<close> are both falsy.
\<close>

definition gate_fails :: "bool option list \<Rightarrow> bool" where
  "gate_fails rows = (case rows of [] \<Rightarrow> True | r # _ \<Rightarrow> r \<noteq> Some True)"

text \<open>
  The aggregate both \<open>completeChapter\<close> and \<open>checkCertificateEligibility\<close> compute:
  \<open>COUNT(*)\<close> and \<open>COUNT(CASE WHEN p.completed = true THEN 1 END)\<close> over the chapters of the
  course left-joined with the student's progress.
\<close>

definition completion_rows ::
  "'id store \<Rightarrow> 'id \<Rightarrow> 'id \<Rightarrow> ('id chapter_row \<times> 'id progress_row option) list" where
  "completion_rows db studentId courseId =
     left_join (course_chapters db courseId) (\<lambda>ch. progress_of db studentId (ch_id ch))"

definition total_chapters :: "'id store \<Rightarrow> 'id \<Rightarrow> 'id \<Rightarrow> int" where
  "total_chapters db studentId courseId = int (length (completion_rows db studentId courseId))"

definition completed_chapters :: "'id store \<Rightarrow> 'id \<Rightarrow> 'id \<Rightarrow> int" where
  "completed_chapters db studentId courseId =
     int (length [r \<leftarrow> completion_rows db studentId courseId. completed_col (snd r) = Some True])"


section \<open>Responses\<close>

text \<open>
  A handler answers with \<open>res.status(n).json(body)\<close>. The bodies are \<open>{error}\<close>,
  \<open>{error, message}\<close>, \<open>{message}\<close>, or a payload particular to the handler.
\<close>

datatype 'a body = Error string | ErrorMessage string string | Message string | Payload 'a

type_synonym 'a response = "nat \<times> 'a body"

section \<open>The progress controller\<close>

subsection \<open>completeChapter\<close>

record completion =
  c_total_chapters :: int
  c_completed_chapters :: int
  c_percentage :: double

record 'id complete_payload =
  cb_message :: string
  cb_progress :: "'id progress_row"
  cb_completion :: completion

text \<open>
  \<open>INSERT INTO progress (student_id, chapter_id, course_id, completed, completed_at)
  VALUES ($1, $2, $3, true, NOW()) ON CONFLICT (student_id, chapter_id) DO UPDATE SET
  completed = true, completed_at = NOW(), updated_at = NOW() RETURNING *\<close>.
  A row with the same (student, chapter) key is updated in place; otherwise a row is
  appended, with the identifier the store generates and the insertion time in its
  timestamp columns. The second component is the row \<open>RETURNING *\<close> yields.
\<close>

definition mark_completed :: "nat \<Rightarrow> 'id progress_row \<Rightarrow> 'id progress_row" where
  "mark_completed now p = p\<lparr>p_completed := True, p_completed_at := Some now, p_updated_at := now\<rparr>"

definition upsert_progress ::
  "'id store \<Rightarrow> nat \<Rightarrow> 'id \<Rightarrow> 'id \<Rightarrow> 'id \<Rightarrow> 'id \<Rightarrow> 'id store \<times> 'id progress_row" where
  "upsert_progress db now fresh studentId chapterId courseId =
     (case progress_of db studentId chapterId of
        [] \<Rightarrow>
          (let row = \<lparr>p_id = fresh, p_student_id = studentId, p_chapter_id = chapterId,
                       p_course_id = courseId, p_completed = True, p_completed_at = Some now,
                       p_created_at = now, p_updated_at = now\<rparr>
           in (db\<lparr>progress := progress db @ [row]\<rparr>, row))
      | old # _ \<Rightarrow>
          (db\<lparr>progress :=
               map (\<lambda>p. if p_chapter_id p = chapterId \<and> p_student_id p = studentId
                         then mark_completed now p else p) (progress db)\<rparr>,
           mark_completed now old))"

text \<open>
  The statements of \<open>completeChapter\<close> after its checks: the upsert, the completion
  aggregate over the updated store, and the 200 response.
\<close>

definition complete_ok ::
  "'id store \<Rightarrow> nat \<Rightarrow> 'id \<Rightarrow> 'id \<Rightarrow> 'id \<Rightarrow> 'id chapter_row
     \<Rightarrow> 'id complete_payload response \<times> 'id store" where
  "complete_ok db now fresh studentId chapterId chapter =
     (let (db', row) = upsert_progress db now fresh studentId chapterId (ch_course_id chapter);
          total_n = total_chapters db' studentId (ch_course_id chapter);
          completed_n = completed_chapters db' studentId (ch_course_id chapter);
          percentage = completionPercentage completed_n total_n
      in ((200, Payload \<lparr>cb_message = ''Chapter completed successfully'',
                          cb_progress = row,
                          cb_completion = \<lparr>c_total_chapters = total_n,
                                            c_completed_chapters = completed_n,
                                            c_percentage = round2 percentage\<rparr>\<rparr>),
          db'))"

definition completeChapter ::
  "'id store \<Rightarrow> nat \<Rightarrow> 'id \<Rightarrow> 'id \<Rightarrow> 'id \<Rightarrow> 'id complete_payload response \<times> 'id store" where
  "completeChapter db now fresh studentId chapterId =
     (case [ch \<leftarrow> chapters db. ch_id ch = chapterId] of
        [] \<Rightarrow> ((404, Error ''Chapter not found''), db)
      | chapter # _ \<Rightarrow>
          if enrollmentCheck db (ch_course_id chapter) studentId = []
          then ((403, Error ''You are not enrolled in this course''), db)
          else if 1 < sequence_order chapter \<and>
                  gate_fails (previousChapterCheck db studentId (ch_course_id chapter)
                                (sequence_order chapter - 1))
          then ((403, ErrorMessage ''Cannot complete chapter''
                        ''You must complete the previous chapter first''), db)
          else if (case progress_of db studentId chapterId of
                     [] \<Rightarrow> False
                   | existing # _ \<Rightarrow> p_completed existing)
          then ((400, Error ''Chapter already completed''), db)
          else complete_ok db now fresh studentId chapterId chapter)"


text \<open>
  A second definition of \<open>completeChapter\<close> is in the repository (the file
  \<open>unnamed/part_002\<close>). It stops after the sequential gate, and it reads
  \<open>chapterResult.rows[0]\<close> without testing \<open>rows.length\<close>: for an empty result
  \<open>chapter\<close> is \<open>undefined\<close> and \<open>chapter.course_id\<close> throws a \<open>TypeError\<close> inside
  the \<open>try\<close>. The outcome is a response, an exception, or control reaching the end of the
  file's text.
\<close>

datatype js_exception = TypeError

datatype 'a outcome = Responded 'a | Thrown js_exception | Continues

definition completeChapter_part_002 ::
  "'id store \<Rightarrow> 'id \<Rightarrow> 'id \<Rightarrow> unit response outcome" where
  "completeChapter_part_002 db studentId chapterId =
     (case [ch \<leftarrow> chapters db. ch_id ch = chapterId] of
        [] \<Rightarrow> Thrown TypeError
      | chapter # _ \<Rightarrow>
          if enrollmentCheck db (ch_course_id chapter) studentId = []
          then Responded (403, Error ''You are not enrolled in this course'')
          else if 1 < sequence_order chapter \<and>
                  gate_fails (previousChapterCheck db studentId (ch_course_id chapter)
                                (sequence_order chapter - 1))
          then Responded (403, ErrorMessage ''Cannot complete chapter''
                                 ''You must complete the previous chapter first'')
          else Continues)"

subsection \<open>The derived unlock flag\<close>

text \<open>
  \<open>CASE WHEN ch.sequence_order = 1 THEN true WHEN EXISTS (SELECT 1 FROM progress prev_p
  JOIN chapters prev_ch ON prev_p.chapter_id = prev_ch.id WHERE prev_ch.course_id =
  ch.course_id AND prev_ch.sequence_order = ch.sequence_order - 1 AND prev_p.student_id = $2
  AND prev_p.completed = true) THEN true ELSE false END\<close>, the expression
  \<open>getCourseProgress\<close> and \<open>getChapters\<close> share.
\<close>

definition is_unlocked :: "'id store \<Rightarrow> 'id \<Rightarrow> 'id chapter_row \<Rightarrow> bool" where
  "is_unlocked db studentId ch =
     (if sequence_order ch = 1 then True
      else if list_ex (\<lambda>prev_p.
                list_ex (\<lambda>prev_ch.
                   p_chapter_id prev_p = ch_id prev_ch \<and>
                   ch_course_id prev_ch = ch_course_id ch \<and>
                   sequence_order prev_ch = sequence_order ch - 1 \<and>
                   p_student_id prev_p = studentId \<and>
                   p_completed prev_p) (chapters db)) (progress db)
      then True
      else False)"

subsection \<open>getCourseProgress and getMyProgress\<close>

text \<open>
  \<open>ROUND(completed::NUMERIC / NULLIF(total, 0) * 100, 2)\<close>: \<open>NULL\<close> for a zero divisor,
  otherwise the quotient times 100 rounded half away from zero to two decimals, in exact
  decimal arithmetic. (The store carries the quotient to at least 16 significant digits
  before rounding; for the row counts of a course that is the exactly rounded value.)
\<close>

definition sql_percentage :: "int \<Rightarrow> int \<Rightarrow> rat option" where
  "sql_percentage completed_n total_n =
     (if total_n = 0 then None
      else Some (of_int \<lfloor>of_int (completed_n * 10000) / (of_int total_n :: rat) + 1 / 2\<rfloor> / 100))"

text \<open>
  \<open>... LEFT JOIN chapters ch ON c.id = ch.course_id LEFT JOIN progress p ON ch.id =
  p.chapter_id AND p.student_id = $2\<close> over the rows \<open>base\<close> of the joins before it, all
  of the course \<open>courseId\<close>: a course without chapters contributes one row whose chapter
  and progress columns are \<open>NULL\<close>. The chapters are taken in the order of
  \<open>json_agg(... ORDER BY ch.sequence_order)\<close>.
\<close>

definition course_rows ::
  "'id store \<Rightarrow> 'id \<Rightarrow> 'id \<Rightarrow> 'a list
     \<Rightarrow> ('id chapter_row option \<times> 'id progress_row option) list" where
  "course_rows db studentId courseId base =
     map (\<lambda>((c, ch), p). (ch, p))
       (left_join
          (left_join base (\<lambda>c. sort_key sequence_order (course_chapters db courseId)))
          (\<lambda>(c, ch). case ch of None \<Rightarrow> [] | Some ch' \<Rightarrow> progress_of db studentId (ch_id ch')))"

record 'id chapter_json =
  j_chapter_id :: "'id option"
  j_chapter_title :: "string option"
  j_chapter_description :: "string option"
  j_sequence_order :: "int option"
  j_completed :: bool
  j_completed_at :: "nat option"
  j_is_unlocked :: "bool option"

text \<open>
  \<open>json_build_object\<close> for one joined row. \<open>getMyProgress\<close> builds the object without
  the keys \<open>chapter_description\<close> and \<open>is_unlocked\<close> (\<open>None\<close> here).
\<close>

definition chapter_object ::
  "'id store \<Rightarrow> 'id \<Rightarrow> bool \<Rightarrow> 'id chapter_row option \<times> 'id progress_row option
     \<Rightarrow> 'id chapter_json" where
  "chapter_object db studentId detailed row =
     (case row of (ch, p) \<Rightarrow>
        \<lparr>j_chapter_id = map_option ch_id ch,
         j_chapter_title = map_option ch_title ch,
         j_chapter_description = (if detailed then Option.bind ch ch_description else None),
         j_sequence_order = map_option sequence_order ch,
         j_completed = (case completed_col p of None \<Rightarrow> False | Some b \<Rightarrow> b),
         j_completed_at = Option.bind p p_completed_at,
         j_is_unlocked =
           (if detailed
            then Some (case ch of None \<Rightarrow> False | Some ch' \<Rightarrow> is_unlocked db studentId ch')
            else None)\<rparr>)"

record 'id course_progress =
  cp_course_id :: 'id
  cp_course_title :: string
  cp_course_description :: string
  cp_mentor_name :: "string option"
  cp_total_chapters :: int
  cp_completed_chapters :: int
  cp_completion_percentage :: "rat option"
  cp_chapters :: "'id chapter_json list option"
  cp_assigned_at :: "nat option"

definition count_chapters :: "('id chapter_row option \<times> 'id progress_row option) list \<Rightarrow> int" where
  "count_chapters rows = int (length [r \<leftarrow> rows. fst r \<noteq> None])"

definition count_completed :: "('id chapter_row option \<times> 'id progress_row option) list \<Rightarrow> int" where
  "count_completed rows = int (length [r \<leftarrow> rows. completed_col (snd r) = Some True])"

definition getCourseProgress ::
  "'id store \<Rightarrow> 'id \<Rightarrow> 'id \<Rightarrow> 'id course_progress response" where
  "getCourseProgress db studentId courseId =
     (if enrollmentCheck db courseId studentId = []
      then (403, Error ''You are not enrolled in this course'')
      else
        (case [c \<leftarrow> courses db. c_id c = courseId] of
           [] \<Rightarrow> (404, Error ''Course not found'')
         | c # _ \<Rightarrow>
             (let rows = course_rows db studentId courseId [c]
              in (200, Payload
                   \<lparr>cp_course_id = c_id c,
                    cp_course_title = c_title c,
                    cp_course_description = c_description c,
                    cp_mentor_name = None,
                    cp_total_chapters = count_chapters rows,
                    cp_completed_chapters = count_completed rows,
                    cp_completion_percentage =
                      sql_percentage (count_completed rows) (count_chapters rows),
                    cp_chapters = Some (map (chapter_object db studentId True) rows),
                    cp_assigned_at = None\<rparr>))))"


text \<open>
  \<open>getMyProgress\<close>. With a \<open>courseId\<close> the rows of the course joined with the student's
  assignment form one group; without it every (course, assignment, mentor) row of the
  student is a group of its own, most recent assignment first, and no chapter array is
  built.
\<close>

definition getMyProgress ::
  "'id store \<Rightarrow> 'id \<Rightarrow> 'id option \<Rightarrow> 'id course_progress list response" where
  "getMyProgress db studentId courseIdOpt =
     (case courseIdOpt of
        Some courseId \<Rightarrow>
          (case [(c, ca). c \<leftarrow> courses db, ca \<leftarrow> course_assignments db,
                          c_id c = ca_course_id ca,
                          ca_student_id ca = studentId \<and> c_id c = courseId] of
             [] \<Rightarrow> (404, Error ''Course not found or not enrolled'')
           | (c, ca) # others \<Rightarrow>
               (let rows = course_rows db studentId courseId ((c, ca) # others)
                in (200, Payload
                     [\<lparr>cp_course_id = c_id c,
                       cp_course_title = c_title c,
                       cp_course_description = c_description c,
                       cp_mentor_name = None,
                       cp_total_chapters = count_chapters rows,
                       cp_completed_chapters = count_completed rows,
                       cp_completion_percentage =
                         sql_percentage (count_completed rows) (count_chapters rows),
                       cp_chapters = Some (map (chapter_object db studentId False) rows),
                       cp_assigned_at = None\<rparr>])))
      | None \<Rightarrow>
          (200, Payload
             (map (\<lambda>(c, ca, u).
                     let rows = course_rows db studentId (c_id c) [(c, ca, u)]
                     in \<lparr>cp_course_id = c_id c,
                         cp_course_title = c_title c,
                         cp_course_description = c_description c,
                         cp_mentor_name = Some (u_full_name u),
                         cp_total_chapters = count_chapters rows,
                         cp_completed_chapters = count_completed rows,
                         cp_completion_percentage =
                           sql_percentage (count_completed rows) (count_chapters rows),
                         cp_chapters = None,
                         cp_assigned_at = Some (ca_assigned_at ca)\<rparr>)
                (rev (sort_key (\<lambda>(c, ca, u). ca_assigned_at ca)
                   [(c, ca, u). c \<leftarrow> courses db, ca \<leftarrow> course_assignments db,
                                c_id c = ca_course_id ca, u \<leftarrow> users db,
                                c_mentor_id c = u_id u, ca_student_id ca = studentId])))))"

subsection \<open>resetProgress\<close>

text \<open>\<open>DELETE FROM progress WHERE student_id = $1 AND course_id = $2\<close>\<close>

definition resetProgress :: "'id store \<Rightarrow> 'id \<Rightarrow> 'id \<Rightarrow> unit response \<times> 'id store" where
  "resetProgress db studentId courseId =
     (if enrollmentCheck db courseId studentId = []
      then ((403, Error ''You are not enrolled in this course''), db)
      else ((200, Message ''Progress reset successfully''),
            db\<lparr>progress :=
                 [p \<leftarrow> progress db. \<not> (p_student_id p = studentId \<and> p_course_id p = courseId)]\<rparr>))"

section \<open>The chapter controller\<close>

subsection \<open>getChapters\<close>

record 'id student_chapter =
  sc_chapter :: "'id chapter_row"
  sc_completed :: "bool option"
  sc_completed_at :: "nat option"
  sc_is_unlocked :: bool

datatype 'id chapters_payload =
  StudentChapters "'id student_chapter list" | MentorChapters "'id chapter_row list"

definition getChapters ::
  "'id store \<Rightarrow> 'id \<Rightarrow> user_role \<Rightarrow> 'id \<Rightarrow> 'id chapters_payload response" where
  "getChapters db userId userRole courseId =
     (if userRole = STUDENT then
        (if enrollmentCheck db courseId userId = []
         then (403, Error ''You are not enrolled in this course'')
         else (200, Payload (StudentChapters
                 (map (\<lambda>(ch, p). \<lparr>sc_chapter = ch,
                                    sc_completed = completed_col p,
                                    sc_completed_at = Option.bind p p_completed_at,
                                    sc_is_unlocked = is_unlocked db userId ch\<rparr>)
                    (sort_key (\<lambda>(ch, p). sequence_order ch)
                       (left_join (course_chapters db courseId)
                          (\<lambda>ch. progress_of db userId (ch_id ch))))))))
      else if userRole = MENTOR then
        (if [c \<leftarrow> courses db. c_id c = courseId \<and> c_mentor_id c = userId] = []
         then (403, Error ''Unauthorized access to course'')
         else (200, Payload (MentorChapters
                 (sort_key sequence_order (course_chapters db courseId)))))
      else (403, Error ''Invalid role for this operation''))"

subsection \<open>deleteChapter\<close>

text \<open>
  The handler sends two statements with \<open>query\<close>, each awaited on its own:
  \<open>DELETE FROM chapters WHERE id = $1\<close>, then \<open>UPDATE chapters SET sequence_order =
  sequence_order - 1 WHERE course_id = $1 AND sequence_order > $2\<close>. It sends no
  \<open>BEGIN\<close> and no \<open>COMMIT\<close>; the handler that runs its statements in a transaction,
  \<open>assignCourse\<close>, takes a client with \<open>getClient\<close> and sends both. The helper
  \<open>query\<close> of \<open>config/database\<close> is not among the source files: it is taken to run the
  one statement it is given against the store, so that a statement sent outside a
  transaction is committed when it returns. What the schema does to the progress rows of a
  deleted chapter is not in the source either; the tables other than \<open>chapters\<close> are left
  as they are.
\<close>

definition delete_statement :: "'id \<Rightarrow> 'id store \<Rightarrow> 'id store" where
  "delete_statement chapterId db =
     db\<lparr>chapters := [ch \<leftarrow> chapters db. ch_id ch \<noteq> chapterId]\<rparr>"

definition reorder_statement :: "'id \<Rightarrow> int \<Rightarrow> 'id store \<Rightarrow> 'id store" where
  "reorder_statement courseId deletedSequence db =
     db\<lparr>chapters :=
          map (\<lambda>ch. if ch_course_id ch = courseId \<and> deletedSequence < sequence_order ch
                    then ch\<lparr>sequence_order := sequence_order ch - 1\<rparr> else ch)
            (chapters db)\<rparr>"

text \<open>
  \<open>SELECT ch.id, ch.sequence_order FROM chapters ch JOIN courses c ON ch.course_id = c.id
  WHERE ch.id = $1 AND ch.course_id = $2 AND c.mentor_id = $3\<close>
\<close>

definition chapterCheck :: "'id store \<Rightarrow> 'id \<Rightarrow> 'id \<Rightarrow> 'id \<Rightarrow> 'id chapter_row list" where
  "chapterCheck db mentorId courseId chapterId =
     [ch. ch \<leftarrow> chapters db, c \<leftarrow> courses db, ch_course_id ch = c_id c,
          ch_id ch = chapterId \<and> ch_course_id ch = courseId \<and> c_mentor_id c = mentorId]"

text \<open>
  The stores the handler commits, in order: the one it starts from, and the one after each
  statement it has sent. A request served between two statements reads the store of that
  moment.
\<close>

definition deleteChapter_commits :: "'id store \<Rightarrow> 'id \<Rightarrow> 'id \<Rightarrow> 'id \<Rightarrow> 'id store list" where
  "deleteChapter_commits db mentorId courseId chapterId =
     (case chapterCheck db mentorId courseId chapterId of
        [] \<Rightarrow> [db]
      | found # _ \<Rightarrow>
          [db,
           delete_statement chapterId db,
           reorder_statement courseId (sequence_order found) (delete_statement chapterId db)])"

definition deleteChapter ::
  "'id store \<Rightarrow> 'id \<Rightarrow> 'id \<Rightarrow> 'id \<Rightarrow> unit response \<times> 'id store" where
  "deleteChapter db mentorId courseId chapterId =
     (case chapterCheck db mentorId courseId chapterId of
        [] \<Rightarrow> ((404, Error ''Chapter not found or unauthorized''), db)
      | found # _ \<Rightarrow>
          ((200, Message ''Chapter deleted successfully''),
           reorder_statement courseId (sequence_order found) (delete_statement chapterId db)))"

section \<open>Certificates\<close>

subsection \<open>checkCertificateEligibility\<close>

record eligibility =
  eligible :: bool
  message :: "string option"
  percentage :: "double option"

definition checkCertificateEligibility :: "'id store \<Rightarrow> 'id \<Rightarrow> 'id \<Rightarrow> eligibility" where
  "checkCertificateEligibility db studentId courseId =
     (if enrollmentCheck db courseId studentId = []
      then \<lparr>eligible = False, message = Some ''Not enrolled in this course'', percentage = None\<rparr>
      else
        (let total_n = total_chapters db studentId courseId;
             completed_n = completed_chapters db studentId courseId
         in if total_n = 0
            then \<lparr>eligible = False, message = Some ''Course has no chapters'', percentage = None\<rparr>
            else if js_less (completionPercentage completed_n total_n) 100
            then \<lparr>eligible = False, message = Some ''Course not fully completed'',
                  percentage = Some (round2 (completionPercentage completed_n total_n))\<rparr>
            else \<lparr>eligible = True, message = None, percentage = Some (literal2 10000)\<rparr>))"

subsection \<open>getCertificate\<close>

record 'id CertificateData =
  student_name :: string
  course_title :: string
  completion_date :: nat
  certificate_id :: 'id

datatype 'id certificate_payload =
  NotAvailable "string option" "double option" | CertificatePDF "'id CertificateData"

text \<open>
  The 403 body is \<open>{error: 'Certificate not available', message, completion_percentage}\<close>.
  An inserted certificate gets the identifier the store generates and the insertion time
  as \<open>issued_at\<close>. \<open>detailsResult.rows[0]\<close> is destructured without a test: with no
  (user, course) row it is \<open>undefined\<close>, the destructuring throws and the \<open>catch\<close> answers
  500, after the insertion. The rendering of the PDF from the certificate data is outside
  the model: the response carries the data handed to \<open>generateCertificatePDF\<close>.
\<close>

text \<open>\<open>SELECT * FROM certificates WHERE student_id = $1 AND course_id = $2\<close>\<close>

definition certificate_rows :: "'id store \<Rightarrow> 'id \<Rightarrow> 'id \<Rightarrow> 'id certificate_row list" where
  "certificate_rows db studentId courseId =
     [cert \<leftarrow> certificates db. cert_student_id cert = studentId \<and> cert_course_id cert = courseId]"

text \<open>
  \<open>SELECT u.full_name as student_name, c.title as course_title FROM users u, courses c
  WHERE u.id = $1 AND c.id = $2\<close>
\<close>

definition detailsResult :: "'id store \<Rightarrow> 'id \<Rightarrow> 'id \<Rightarrow> ('id user_row \<times> 'id course_row) list" where
  "detailsResult db studentId courseId =
     [(u, c). u \<leftarrow> users db, c \<leftarrow> courses db, u_id u = studentId \<and> c_id c = courseId]"

text \<open>The certificate id a response of \<open>getCertificate\<close> carries, if it carries one.\<close>

definition issued_id :: "'id certificate_payload response \<Rightarrow> 'id option" where
  "issued_id res =
     (case res of
        (status, Payload (CertificatePDF d)) \<Rightarrow> Some (certificate_id d)
      | (status, _) \<Rightarrow> None)"

definition getCertificate ::
  "'id store \<Rightarrow> nat \<Rightarrow> 'id \<Rightarrow> 'id \<Rightarrow> 'id \<Rightarrow> 'id certificate_payload response \<times> 'id store" where
  "getCertificate db now fresh studentId courseId =
     (let eligibility = checkCertificateEligibility db studentId courseId
      in if \<not> eligible eligibility
         then ((403, Payload (NotAvailable (message eligibility) (percentage eligibility))), db)
         else
           (let (certificate, db') =
                  (case certificate_rows db studentId courseId of
                     [] \<Rightarrow>
                       (let new = \<lparr>cert_id = fresh, cert_student_id = studentId,
                                    cert_course_id = courseId, cert_issued_at = now,
                                    cert_certificate_url = None\<rparr>
                        in (new, db\<lparr>certificates := certificates db @ [new]\<rparr>))
                   | existing # _ \<Rightarrow> (existing, db))
            in (case detailsResult db studentId courseId of
                  [] \<Rightarrow> ((500, Error ''Failed to generate certificate''), db')
                | (u, c) # _ \<Rightarrow>
                    ((200, Payload (CertificatePDF
                        \<lparr>student_name = u_full_name u,
                         course_title = c_title c,
                         completion_date = cert_issued_at certificate,
                         certificate_id = cert_id certificate\<rparr>)), db'))))"


section \<open>The claims' words\<close>

text \<open>
  The unlock rule as the specification words it: a chapter is unlocked for a student when
  its \<open>sequence_order\<close> is 1, or a progress row with \<open>completed = true\<close> exists for the
  student on a chapter of the same course whose \<open>sequence_order\<close> is one less.
\<close>

definition unlocked_by_spec :: "'id store \<Rightarrow> 'id \<Rightarrow> 'id chapter_row \<Rightarrow> bool" where
  "unlocked_by_spec db studentId ch =
     (sequence_order ch = 1 \<or>
      (\<exists>p \<in> set (progress db). \<exists>prev \<in> set (chapters db).
          p_completed p \<and> p_student_id p = studentId \<and> p_chapter_id p = ch_id prev \<and>
          ch_course_id prev = ch_course_id ch \<and> sequence_order prev = sequence_order ch - 1))"

text \<open>A JSON object of the \<open>chapters\<close> array describes the chapter row \<open>ch\<close>.\<close>

definition entry_of :: "'id chapter_json \<Rightarrow> 'id chapter_row \<Rightarrow> bool" where
  "entry_of e ch =
     (j_chapter_id e = Some (ch_id ch) \<and> j_chapter_title e = Some (ch_title ch) \<and>
      j_sequence_order e = Some (sequence_order ch))"

text \<open>What a response of \<open>getCourseProgress\<close> shows per chapter: id, completion, unlock flag.\<close>

definition chapter_view ::
  "'id course_progress response \<Rightarrow> nat \<times> ('id option \<times> bool \<times> bool option) list" where
  "chapter_view res =
     (case res of
        (status, Payload r) \<Rightarrow>
          (status, map (\<lambda>e. (j_chapter_id e, j_completed e, j_is_unlocked e))
                     (case cp_chapters r of None \<Rightarrow> [] | Some es \<Rightarrow> es))
      | (status, _) \<Rightarrow> (status, []))"

text \<open>
  The keys the store keeps unique: \<open>ON CONFLICT (student_id, chapter_id)\<close> names the
  unique key of \<open>progress\<close>; the specification's data model makes \<open>sequence_order\<close>
  unique within a course.
\<close>

definition progress_key :: "'id progress_row \<Rightarrow> 'id \<times> 'id" where
  "progress_key p = (p_student_id p, p_chapter_id p)"

definition order_key :: "'id chapter_row \<Rightarrow> 'id \<times> int" where
  "order_key ch = (ch_course_id ch, sequence_order ch)"

text \<open>
  The chapters of a course hold the dense orders \<open>1..N\<close>: every order once, none missing.
\<close>

definition dense_orders :: "'id store \<Rightarrow> 'id \<Rightarrow> bool" where
  "dense_orders db courseId =
     (let os = map sequence_order (course_chapters db courseId)
      in distinct os \<and> set os = {1..int (length os)})"

text \<open>
  What the reindexing does to one remaining chapter of the course, and to its order, when
  the chapter with order \<open>d\<close> has been deleted.
\<close>

definition renumber :: "int \<Rightarrow> 'id chapter_row \<Rightarrow> 'id chapter_row" where
  "renumber d ch = (if d < sequence_order ch then ch\<lparr>sequence_order := sequence_order ch - 1\<rparr> else ch)"

definition shift :: "int \<Rightarrow> int \<Rightarrow> int" where
  "shift d n = (if d < n then n - 1 else n)"

text \<open>The chapters of a store, each as its id and order.\<close>

definition orders_view :: "'id store \<Rightarrow> ('id \<times> int) list" where
  "orders_view db = map (\<lambda>ch. (ch_id ch, sequence_order ch)) (chapters db)"

text \<open>
  The column \<open>course_id\<close> of a progress row repeats the course of the row's chapter;
  \<open>completeChapter\<close>, the only writer of the table, fills it from the chapter.
\<close>

definition progress_consistent :: "'id store \<Rightarrow> bool" where
  "progress_consistent db =
     (\<forall>p \<in> set (progress db). \<forall>ch \<in> set (chapters db).
        p_chapter_id p = ch_id ch \<longrightarrow> p_course_id p = ch_course_id ch)"

text \<open>
  The claim's percentage, in hundredths: \<open>completed / total * 100\<close> rounded half up to two
  decimals, in exact arithmetic.
\<close>

definition half_up_hundredths :: "int \<Rightarrow> int \<Rightarrow> int" where
  "half_up_hundredths completed_n total_n =
     \<lfloor>of_int completed_n / (of_int total_n :: rat) * 100 * 100 + 1 / 2\<rfloor>"

text \<open>The status and the \<open>completion\<close> object of a response of \<open>completeChapter\<close>.\<close>

definition completion_view :: "'id complete_payload response \<Rightarrow> (nat \<times> completion) option" where
  "completion_view res =
     (case res of (status, Payload pl) \<Rightarrow> Some (status, cb_completion pl) | _ \<Rightarrow> None)"

text \<open>
  The claim's percentage, exactly: \<open>completed / total * 100\<close>. And what a response of
  \<open>getMyProgress\<close> reports per course: total, completed, percentage.
\<close>

definition exact_percentage :: "int \<Rightarrow> int \<Rightarrow> rat" where
  "exact_percentage completed_n total_n = of_int completed_n / of_int total_n * 100"

definition aggregate_view ::
  "'id course_progress list response \<Rightarrow> nat \<times> (int \<times> int \<times> rat option) list" where
  "aggregate_view res =
     (case res of
        (status, Payload rs) \<Rightarrow>
          (status, map (\<lambda>r. (cp_total_chapters r, cp_completed_chapters r,
                              cp_completion_percentage r)) rs)
      | (status, _) \<Rightarrow> (status, []))"

section \<open>Example stores\<close>

text \<open>
  A course \<open>c1\<close> of the mentor \<open>m1\<close> with the chapters A(1), B(2), C(3), a course \<open>c0\<close>
  without chapters, and the student \<open>s1\<close> enrolled in both, with no progress yet.
\<close>

definition chapter_of :: "string \<Rightarrow> string \<Rightarrow> int \<Rightarrow> string chapter_row" where
  "chapter_of i c n =
     \<lparr>ch_id = i, ch_course_id = c, ch_title = i, ch_description = None,
      ch_image_url = None, ch_video_url = None, sequence_order = n\<rparr>"

definition example_db :: "string store" where
  "example_db =
     \<lparr>users = [\<lparr>u_id = ''s1'', u_email = ''s1@lms'', u_full_name = ''Sam'', u_role = STUDENT,
                 u_is_approved = True\<rparr>,
                \<lparr>u_id = ''m1'', u_email = ''m1@lms'', u_full_name = ''Mia'', u_role = MENTOR,
                 u_is_approved = True\<rparr>],
      courses = [\<lparr>c_id = ''c1'', c_title = ''Course'', c_description = ''Three chapters'',
                   c_mentor_id = ''m1''\<rparr>,
                  \<lparr>c_id = ''c0'', c_title = ''Empty'', c_description = ''No chapters'',
                   c_mentor_id = ''m1''\<rparr>],
      chapters = [chapter_of ''A'' ''c1'' 1, chapter_of ''B'' ''c1'' 2, chapter_of ''C'' ''c1'' 3],
      course_assignments =
        [\<lparr>ca_id = ''e1'', ca_course_id = ''c1'', ca_student_id = ''s1'', ca_assigned_at = 5\<rparr>,
         \<lparr>ca_id = ''e0'', ca_course_id = ''c0'', ca_student_id = ''s1'', ca_assigned_at = 6\<rparr>],
      progress = [],
      certificates = []\<rparr>"

text \<open>The same store after \<open>s1\<close> has completed chapter A at time 7.\<close>

definition example_db_A :: "string store" where
  "example_db_A =
     example_db\<lparr>progress :=
       [\<lparr>p_id = ''p1'', p_student_id = ''s1'', p_chapter_id = ''A'', p_course_id = ''c1'',
         p_completed = True, p_completed_at = Some 7, p_created_at = 7, p_updated_at = 7\<rparr>]\<rparr>"

text \<open>And after \<open>s1\<close> has also completed chapter B at time 8.\<close>

definition example_db_AB :: "string store" where
  "example_db_AB =
     example_db\<lparr>progress :=
       [\<lparr>p_id = ''p1'', p_student_id = ''s1'', p_chapter_id = ''A'', p_course_id = ''c1'',
         p_completed = True, p_completed_at = Some 7, p_created_at = 7, p_updated_at = 7\<rparr>,
        \<lparr>p_id = ''p2'', p_student_id = ''s1'', p_chapter_id = ''B'', p_course_id = ''c1'',
         p_completed = True, p_completed_at = Some 8, p_created_at = 8, p_updated_at = 8\<rparr>]\<rparr>"

text \<open>A course \<open>c4\<close> of the mentor \<open>m1\<close> with four chapters W(1), X(2), Y(3), Z(4).\<close>

definition four_db :: "string store" where
  "four_db =
     \<lparr>users = [\<lparr>u_id = ''m1'', u_email = ''m1@lms'', u_full_name = ''Mia'', u_role = MENTOR,
                 u_is_approved = True\<rparr>],
      courses = [\<lparr>c_id = ''c4'', c_title = ''Four'', c_description = ''Four chapters'',
                   c_mentor_id = ''m1''\<rparr>],
      chapters = [chapter_of ''W'' ''c4'' 1, chapter_of ''X'' ''c4'' 2, chapter_of ''Y'' ''c4'' 3,
                  chapter_of ''Z'' ''c4'' 4],
      course_assignments = [],
      progress = [],
      certificates = []\<rparr>"

text \<open>
  After \<open>s1\<close> has completed all three chapters; the same store holding the certificate
  \<open>k7\<close> of another student for the course and the certificate \<open>k0\<close> of \<open>s1\<close> for
  another course; and that store after the certificate \<open>k1\<close> has been issued to \<open>s1\<close>
  for the course at time 10.
\<close>

definition example_db_ABC :: "string store" where
  "example_db_ABC =
     example_db\<lparr>progress :=
       [\<lparr>p_id = ''p1'', p_student_id = ''s1'', p_chapter_id = ''A'', p_course_id = ''c1'',
         p_completed = True, p_completed_at = Some 7, p_created_at = 7, p_updated_at = 7\<rparr>,
        \<lparr>p_id = ''p2'', p_student_id = ''s1'', p_chapter_id = ''B'', p_course_id = ''c1'',
         p_completed = True, p_completed_at = Some 8, p_created_at = 8, p_updated_at = 8\<rparr>,
        \<lparr>p_id = ''p3'', p_student_id = ''s1'', p_chapter_id = ''C'', p_course_id = ''c1'',
         p_completed = True, p_completed_at = Some 9, p_created_at = 9, p_updated_at = 9\<rparr>]\<rparr>"

definition example_db_other :: "string store" where
  "example_db_other =
     example_db_ABC\<lparr>certificates :=
       [\<lparr>cert_id = ''k7'', cert_student_id = ''s7'', cert_course_id = ''c1'',
         cert_issued_at = 4, cert_certificate_url = None\<rparr>,
        \<lparr>cert_id = ''k0'', cert_student_id = ''s1'', cert_course_id = ''c0'',
         cert_issued_at = 5, cert_certificate_url = None\<rparr>]\<rparr>"

definition example_db_issued :: "string store" where
  "example_db_issued =
     example_db_ABC\<lparr>certificates :=
       [\<lparr>cert_id = ''k7'', cert_student_id = ''s7'', cert_course_id = ''c1'',
         cert_issued_at = 4, cert_certificate_url = None\<rparr>,
        \<lparr>cert_id = ''k0'', cert_student_id = ''s1'', cert_course_id = ''c0'',
         cert_issued_at = 5, cert_certificate_url = None\<rparr>,
        \<lparr>cert_id = ''k1'', cert_student_id = ''s1'', cert_course_id = ''c1'',
         cert_issued_at = 10, cert_certificate_url = None\<rparr>]\<rparr>"

text \<open>
  A course of \<open>N\<close> chapters with the orders \<open>1..N\<close>, of which the enrolled student has
  completed the first \<open>n\<close>, chapter \<open>i\<close> at time \<open>i\<close>. Identifiers are numbers here:
  chapter \<open>i\<close> and its progress row have the id \<open>i\<close>, the course and the student the id 0.
\<close>

definition one_to :: "nat \<Rightarrow> nat list" where
  "one_to N = [1..<Suc N]"

definition linear_chapter :: "nat \<Rightarrow> nat chapter_row" where
  "linear_chapter i = \<lparr>ch_id = i, ch_course_id = 0, ch_title = ''chapter'',
                             ch_description = None, ch_image_url = None, ch_video_url = None,
                             sequence_order = int i\<rparr>"

definition linear_progress :: "nat \<Rightarrow> nat progress_row" where
  "linear_progress i = \<lparr>p_id = i, p_student_id = 0, p_chapter_id = i,
                             p_course_id = 0, p_completed = True, p_completed_at = Some i,
                             p_created_at = i, p_updated_at = i\<rparr>"

definition linear_course :: "nat \<Rightarrow> nat \<Rightarrow> nat store" where
  "linear_course N n =
     \<lparr>users = [],
      courses = [\<lparr>c_id = 0, c_title = ''Linear'', c_description = ''N chapters'', c_mentor_id = 1\<rparr>],
      chapters = map linear_chapter (one_to N),
      course_assignments = [\<lparr>ca_id = 0, ca_course_id = 0, ca_student_id = 0, ca_assigned_at = 0\<rparr>],
      progress = map linear_progress (one_to n),
      certificates = []\<rparr>"

lemmas example_defs =
  example_db_def example_db_A_def example_db_AB_def example_db_ABC_def example_db_other_def
  example_db_issued_def
  four_db_def chapter_of_def


lemmas query_defs =
  enrollmentCheck_def progress_of_def course_chapters_def completed_col_def
  previousChapterCheck_def gate_fails_def completion_rows_def total_chapters_def
  completed_chapters_def left_join_def

section \<open>Facts about the SQL building blocks\<close>

lemma left_join_row:
  "(case ys of [] \<Rightarrow> [(x, None)] | y # ys' \<Rightarrow> map (\<lambda>y'. (x, Some y')) (y # ys')) =
     (if ys = [] then [(x, None)] else map (\<lambda>y'. (x, Some y')) ys)"
  by (cases ys) simp_all

lemma left_join_alt:
  "left_join xs f =
     concat (map (\<lambda>x. if f x = [] then [(x, None)] else map (\<lambda>y'. (x, Some y')) (f x)) xs)"
  unfolding left_join_def left_join_row ..

lemma set_left_join_Some:
  "(x, Some y) \<in> set (left_join xs f) \<longleftrightarrow> x \<in> set xs \<and> y \<in> set (f x)"
  by (auto simp: left_join_alt split: if_splits)

lemma set_left_join_None:
  "(x, None) \<in> set (left_join xs f) \<longleftrightarrow> x \<in> set xs \<and> f x = []"
  by (auto simp: left_join_alt split: if_splits)

lemma gate_fails_all:
  "\<forall>r \<in> set rows. r \<noteq> Some True \<Longrightarrow> gate_fails rows"
  by (cases rows) (auto simp: gate_fails_def)

text \<open>A key that is unique in a table selects exactly the row that carries it.\<close>

lemma filter_key_unique:
  assumes "distinct (map f xs)" and "x \<in> set xs"
  shows "[y \<leftarrow> xs. f y = f x] = [x]"
  using assms
proof (induction xs)
  case Nil
  then show ?case by simp
next
  case (Cons a xs)
  show ?case
  proof (cases "a = x")
    case True
    with Cons.prems have "\<forall>y \<in> set xs. f y \<noteq> f x" by (auto simp: image_iff)
    then have "[y \<leftarrow> xs. f y = f x] = []" by (simp add: filter_empty_conv)
    with True show ?thesis by simp
  next
    case False
    with Cons.prems have "x \<in> set xs" and "f a \<noteq> f x" and "distinct (map f xs)" by auto
    with Cons.IH show ?thesis by simp
  qed
qed

section \<open>completeChapter: the failure paths\<close>

lemma previousChapterCheck_incomplete:
  assumes "\<forall>prev \<in> set (chapters db). \<forall>p \<in> set (progress db).
             ch_course_id prev = courseId \<and> sequence_order prev = n \<and>
             p_chapter_id p = ch_id prev \<and> p_student_id p = studentId \<longrightarrow> \<not> p_completed p"
  shows "gate_fails (previousChapterCheck db studentId courseId n)"
proof (rule gate_fails_all, rule ballI)
  fix r assume "r \<in> set (previousChapterCheck db studentId courseId n)"
  then obtain prev p where
    mem: "(prev, p) \<in> set (left_join [ch \<leftarrow> chapters db. ch_course_id ch = courseId \<and> sequence_order ch = n]
            (\<lambda>ch. progress_of db studentId (ch_id ch)))"
    and r: "r = completed_col p"
    by (auto simp: previousChapterCheck_def)
  show "r \<noteq> Some True"
  proof (cases p)
    case None
    with r show ?thesis by (simp add: completed_col_def)
  next
    case (Some q)
    with mem have "prev \<in> set (chapters db)" "ch_course_id prev = courseId" "sequence_order prev = n"
      "q \<in> set (progress db)" "p_chapter_id q = ch_id prev" "p_student_id q = studentId"
      by (auto simp: set_left_join_Some progress_of_def)
    with assms have "\<not> p_completed q" by blast
    with Some r show ?thesis by (simp add: completed_col_def)
  qed
qed

text \<open>
  C2. Completing a locked chapter: the chapter has \<open>sequence_order > 1\<close> and no chapter of
  its course with the order one less has a \<open>completed = true\<close> progress row of the student.
  The call answers 403 and returns the store it was given; for an enrolled student the body
  is the one of the sequential gate, \<open>{error: 'Cannot complete chapter', message: 'You must
  complete the previous chapter first'}\<close>. (\<open>id\<close> is the primary key of
  \<open>chapters\<close>.)
\<close>

theorem complete_locked_forbidden:
  assumes ids: "distinct (map ch_id (chapters db))"
    and ch: "ch \<in> set (chapters db)"
    and gt: "1 < sequence_order ch"
    and prev: "\<forall>prev \<in> set (chapters db). \<forall>p \<in> set (progress db).
             ch_course_id prev = ch_course_id ch \<and> sequence_order prev = sequence_order ch - 1 \<and>
             p_chapter_id p = ch_id prev \<and> p_student_id p = studentId \<longrightarrow> \<not> p_completed p"
  shows "snd (completeChapter db now fresh studentId (ch_id ch)) = db \<and>
         fst (fst (completeChapter db now fresh studentId (ch_id ch))) = 403 \<and>
         (enrollmentCheck db (ch_course_id ch) studentId \<noteq> [] \<longrightarrow>
            fst (completeChapter db now fresh studentId (ch_id ch)) =
              (403, ErrorMessage ''Cannot complete chapter''
                      ''You must complete the previous chapter first''))"
proof -
  have f: "[c \<leftarrow> chapters db. ch_id c = ch_id ch] = [ch]"
    using filter_key_unique [OF ids ch] .
  have g: "gate_fails (previousChapterCheck db studentId (ch_course_id ch) (sequence_order ch - 1))"
    using prev by (rule previousChapterCheck_incomplete)
  show ?thesis
    using gt g by (simp add: completeChapter_def f)
qed

theorem complete_locked_forbidden_witness:
  "distinct (map ch_id (chapters example_db_A)) \<and>
   chapter_of ''C'' ''c1'' 3 \<in> set (chapters example_db_A) \<and>
   1 < sequence_order (chapter_of ''C'' ''c1'' 3) \<and>
   enrollmentCheck example_db_A ''c1'' ''s1'' \<noteq> [] \<and>
   completeChapter example_db_A 7 ''p1'' ''s1'' ''C'' =
     ((403, ErrorMessage ''Cannot complete chapter''
              ''You must complete the previous chapter first''), example_db_A)"
proof -
  have h1: "distinct (map ch_id (chapters example_db_A))"
    by (simp add: example_defs)
  have h2: "chapter_of ''C'' ''c1'' 3 \<in> set (chapters example_db_A)"
    by (simp add: example_defs)
  have h3: "1 < sequence_order (chapter_of ''C'' ''c1'' 3)"
    by (simp add: example_defs)
  have h4: "\<forall>prev \<in> set (chapters example_db_A). \<forall>p \<in> set (progress example_db_A).
             ch_course_id prev = ch_course_id (chapter_of ''C'' ''c1'' 3) \<and>
             sequence_order prev = sequence_order (chapter_of ''C'' ''c1'' 3) - 1 \<and>
             p_chapter_id p = ch_id prev \<and> p_student_id p = ''s1'' \<longrightarrow> \<not> p_completed p"
    by (simp add: example_defs)
  have h5: "enrollmentCheck example_db_A ''c1'' ''s1'' \<noteq> []"
    by (simp add: example_defs enrollmentCheck_def)
  have c: "ch_id (chapter_of ''C'' ''c1'' 3) = ''C''" "ch_course_id (chapter_of ''C'' ''c1'' 3) = ''c1''"
    by (simp_all add: chapter_of_def)
  from complete_locked_forbidden [OF h1 h2 h3 h4, of 7 "''p1''"] h5
  have "completeChapter example_db_A 7 ''p1'' ''s1'' ''C'' =
     ((403, ErrorMessage ''Cannot complete chapter''
              ''You must complete the previous chapter first''), example_db_A)"
    unfolding c by (metis prod.collapse)
  with h1 h2 h3 h5 show ?thesis by blast
qed

text \<open>
  The handler of \<open>progress.controller\<close> answers an unknown \<open>chapterId\<close> with 404 and leaves
  the store alone.
\<close>

lemma completeChapter_not_found:
  "\<forall>ch \<in> set (chapters db). ch_id ch \<noteq> chapterId \<Longrightarrow>
   completeChapter db now fresh studentId chapterId = ((404, Error ''Chapter not found''), db)"
  by (simp add: completeChapter_def filter_empty_conv)

text \<open>
  C9. For a \<open>chapterId\<close> that identifies no chapter, the \<open>completeChapter\<close> of
  \<open>unnamed/part_002\<close> does not answer 404: it has no test of \<open>rows.length\<close> and throws a
  \<open>TypeError\<close> on \<open>chapter.course_id\<close>, which is an internal error.
\<close>

theorem completeChapter_part_002_unknown_chapter:
  "\<forall>ch \<in> set (chapters db). ch_id ch \<noteq> chapterId \<Longrightarrow>
   completeChapter_part_002 db studentId chapterId = Thrown TypeError"
  by (simp add: completeChapter_part_002_def filter_empty_conv)

theorem completeChapter_part_002_unknown_chapter_witness:
  "completeChapter_part_002 example_db ''s1'' ''Z'' = Thrown TypeError"
proof -
  have h: "\<forall>ch \<in> set (chapters example_db). ch_id ch \<noteq> ''Z''"
    by (simp add: example_defs)
  from completeChapter_part_002_unknown_chapter [OF h] show ?thesis .
qed


section \<open>The derived unlock state\<close>

lemma is_unlocked_iff: "is_unlocked db studentId ch = unlocked_by_spec db studentId ch"
  unfolding is_unlocked_def unlocked_by_spec_def list_ex_iff by auto

lemma set_left_join:
  "(x, yo) \<in> set (left_join xs f) \<longleftrightarrow>
     x \<in> set xs \<and> (case yo of None \<Rightarrow> f x = [] | Some y \<Rightarrow> y \<in> set (f x))"
  by (cases yo) (simp_all add: set_left_join_None set_left_join_Some)

lemma left_join_covers:
  assumes "x \<in> set xs" shows "\<exists>yo. (x, yo) \<in> set (left_join xs f)"
proof (cases "f x")
  case Nil
  with assms have "(x, None) \<in> set (left_join xs f)" by (simp add: set_left_join)
  then show ?thesis ..
next
  case (Cons y ys)
  with assms have "(x, Some y) \<in> set (left_join xs f)" by (simp add: set_left_join)
  then show ?thesis ..
qed

lemma course_rows_Some:
  "(Some ch, p) \<in> set (course_rows db studentId courseId base) \<Longrightarrow>
     ch \<in> set (course_chapters db courseId)"
  by (auto simp: course_rows_def set_left_join)

lemma course_rows_covers:
  assumes "base \<noteq> []" and "ch \<in> set (course_chapters db courseId)"
  shows "\<exists>p. (Some ch, p) \<in> set (course_rows db studentId courseId base)"
proof -
  from assms(1) obtain b where b: "b \<in> set base" by (cases base) auto
  with assms(2) have 1: "(b, Some ch) \<in> set (left_join base (\<lambda>c. sort_key sequence_order (course_chapters db courseId)))"
    by (simp add: set_left_join)
  from left_join_covers [OF 1] obtain p where
    "((b, Some ch), p) \<in> set (left_join (left_join base (\<lambda>c. sort_key sequence_order (course_chapters db courseId)))
        (\<lambda>(c, ch). case ch of None \<Rightarrow> [] | Some ch' \<Rightarrow> progress_of db studentId (ch_id ch')))"
    by blast
  then have "(Some ch, p) \<in> set (course_rows db studentId courseId base)"
    unfolding course_rows_def by force
  then show ?thesis ..
qed

lemma chapter_object_Some:
  "entry_of (chapter_object db studentId True (Some ch, p)) ch \<and>
   j_is_unlocked (chapter_object db studentId True (Some ch, p)) = Some (unlocked_by_spec db studentId ch)"
  by (simp add: chapter_object_def entry_of_def is_unlocked_iff)

lemma chapter_object_None:
  "j_chapter_id (chapter_object db studentId d (None, p)) = None"
  by (simp add: chapter_object_def)

lemma getCourseProgress_enrolled:
  assumes "enrollmentCheck db courseId studentId \<noteq> []"
    and "[c \<leftarrow> courses db. c_id c = courseId] \<noteq> []"
  shows "\<exists>r. getCourseProgress db studentId courseId = (200, Payload r)"
  using assms by (cases "[c \<leftarrow> courses db. c_id c = courseId]") (simp_all add: getCourseProgress_def Let_def)

lemma getCourseProgress_chapters:
  assumes "getCourseProgress (db :: 'id store) studentId courseId = (200, Payload r)"
  shows "\<exists>c :: 'id course_row. cp_chapters r = Some (map (chapter_object db studentId True) (course_rows db studentId courseId [c]))"
proof (cases "[c \<leftarrow> courses db. c_id c = courseId]")
  case Nil
  with assms show ?thesis by (simp add: getCourseProgress_def split: if_splits)
next
  case (Cons c cs)
  with assms have "cp_chapters r = Some (map (chapter_object db studentId True) (course_rows db studentId courseId [c]))"
    by (auto simp: getCourseProgress_def Let_def split: if_splits)
  then show ?thesis ..
qed

text \<open>
  C1. The unlock state the read handlers derive. In a 200 response of
  \<open>getCourseProgress\<close> every chapter of the course has an object in the \<open>chapters\<close> array,
  every object with a chapter id describes a chapter of the course, and its \<open>is_unlocked\<close>
  is true exactly when the chapter's \<open>sequence_order\<close> is 1 or a completed progress row of
  the student exists on a chapter of the same course with the order one less. The rows a
  student gets from \<open>getChapters\<close> are the chapters of the course, with the same flag.
\<close>

theorem derived_unlock_state:
  "(getCourseProgress db studentId courseId = (200, Payload r) \<longrightarrow>
      (\<exists>es. cp_chapters r = Some es \<and>
         (\<forall>ch \<in> set (course_chapters db courseId). \<exists>e \<in> set es.
             entry_of e ch \<and> j_is_unlocked e = Some (unlocked_by_spec db studentId ch)) \<and>
         (\<forall>e \<in> set es. j_chapter_id e \<noteq> None \<longrightarrow>
             (\<exists>ch \<in> set (course_chapters db courseId).
                 entry_of e ch \<and> j_is_unlocked e = Some (unlocked_by_spec db studentId ch))))) \<and>
   (getChapters db studentId STUDENT courseId = (200, Payload (StudentChapters rows)) \<longrightarrow>
      set (map sc_chapter rows) = set (course_chapters db courseId) \<and>
      (\<forall>row \<in> set rows. sc_is_unlocked row = unlocked_by_spec db studentId (sc_chapter row)))"
proof (intro conjI impI)
  assume a: "getCourseProgress db studentId courseId = (200, Payload r)"
  from getCourseProgress_chapters [OF a] obtain c :: "'a course_row" where
    es: "cp_chapters r = Some (map (chapter_object db studentId True) (course_rows db studentId courseId [c]))"
    by blast
  let ?rows = "course_rows db studentId courseId [c]"
  let ?es = "map (chapter_object db studentId True) ?rows"
  have cover: "\<forall>ch \<in> set (course_chapters db courseId). \<exists>e \<in> set ?es.
             entry_of e ch \<and> j_is_unlocked e = Some (unlocked_by_spec db studentId ch)"
  proof
    fix ch assume "ch \<in> set (course_chapters db courseId)"
    with course_rows_covers [of "[c]" ch db courseId studentId]
    obtain p where "(Some ch, p) \<in> set ?rows" by auto
    then have "chapter_object db studentId True (Some ch, p) \<in> set ?es" by force
    with chapter_object_Some [of db studentId ch p]
    show "\<exists>e \<in> set ?es. entry_of e ch \<and> j_is_unlocked e = Some (unlocked_by_spec db studentId ch)"
      by blast
  qed
  have sound: "\<forall>e \<in> set ?es. j_chapter_id e \<noteq> None \<longrightarrow>
             (\<exists>ch \<in> set (course_chapters db courseId).
                 entry_of e ch \<and> j_is_unlocked e = Some (unlocked_by_spec db studentId ch))"
  proof (intro ballI impI)
    fix e assume e: "e \<in> set ?es" and n: "j_chapter_id e \<noteq> None"
    then obtain cho p where row: "(cho, p) \<in> set ?rows" and eq: "e = chapter_object db studentId True (cho, p)"
      by auto
    from n eq obtain ch where cho: "cho = Some ch"
      by (cases cho) (simp_all add: chapter_object_None)
    with row have "ch \<in> set (course_chapters db courseId)" by (simp add: course_rows_Some)
    with chapter_object_Some [of db studentId ch p] eq cho
    show "\<exists>ch \<in> set (course_chapters db courseId).
                 entry_of e ch \<and> j_is_unlocked e = Some (unlocked_by_spec db studentId ch)"
      by blast
  qed
  from es cover sound
  show "\<exists>es. cp_chapters r = Some es \<and>
         (\<forall>ch \<in> set (course_chapters db courseId). \<exists>e \<in> set es.
             entry_of e ch \<and> j_is_unlocked e = Some (unlocked_by_spec db studentId ch)) \<and>
         (\<forall>e \<in> set es. j_chapter_id e \<noteq> None \<longrightarrow>
             (\<exists>ch \<in> set (course_chapters db courseId).
                 entry_of e ch \<and> j_is_unlocked e = Some (unlocked_by_spec db studentId ch)))"
    by blast
next
  assume a: "getChapters db studentId STUDENT courseId = (200, Payload (StudentChapters rows))"
  let ?j = "left_join (course_chapters db courseId) (\<lambda>ch. progress_of db studentId (ch_id ch))"
  from a have rows: "rows = map (\<lambda>(ch, p). \<lparr>sc_chapter = ch,
                                    sc_completed = completed_col p,
                                    sc_completed_at = Option.bind p p_completed_at,
                                    sc_is_unlocked = is_unlocked db studentId ch\<rparr>)
                    (sort_key (\<lambda>(ch, p). sequence_order ch) ?j)"
    by (simp add: getChapters_def split: if_splits)
  have "map sc_chapter rows = map fst (sort_key (\<lambda>(ch, p). sequence_order ch) ?j)"
    unfolding rows by (simp add: case_prod_beta)
  then have "set (map sc_chapter rows) = fst ` set ?j" by simp
  also have "\<dots> = set (course_chapters db courseId)"
  proof (intro set_eqI iffI)
    fix ch assume "ch \<in> fst ` set ?j"
    then show "ch \<in> set (course_chapters db courseId)" by (auto simp: set_left_join)
  next
    fix ch assume "ch \<in> set (course_chapters db courseId)"
    from left_join_covers [OF this] obtain yo where "(ch, yo) \<in> set ?j" by blast
    then show "ch \<in> fst ` set ?j" by force
  qed
  finally show "set (map sc_chapter rows) = set (course_chapters db courseId)" .
  show "\<forall>row \<in> set rows. sc_is_unlocked row = unlocked_by_spec db studentId (sc_chapter row)"
    unfolding rows by (auto simp: is_unlocked_iff)
qed


theorem derived_unlock_state_witness:
  "chapter_view (getCourseProgress example_db_A ''s1'' ''c1'') =
     (200, [(Some ''A'', True, Some True), (Some ''B'', False, Some True),
            (Some ''C'', False, Some False)]) \<and>
   map (unlocked_by_spec example_db_A ''s1'') (chapters example_db_A) = [True, True, False] \<and>
   (case getChapters example_db_A ''s1'' STUDENT ''c1'' of
      (status, Payload (StudentChapters rows)) \<Rightarrow>
        (status, map (\<lambda>r. (ch_id (sc_chapter r), sc_is_unlocked r)) rows)
    | (status, _) \<Rightarrow> (status, [])) =
     (200, [(''A'', True), (''B'', True), (''C'', False)])"
  using derived_unlock_state [of example_db_A "''s1''" "''c1''"]
  by (simp add: example_defs getCourseProgress_def getChapters_def chapter_view_def Let_def
      course_rows_def chapter_object_def is_unlocked_def unlocked_by_spec_def query_defs)


section \<open>completeChapter: the upsert\<close>

lemma left_join_cong:
  "\<forall>x \<in> set xs. f x = g x \<Longrightarrow> left_join xs f = left_join xs g"
  unfolding left_join_def by (induction xs) auto

lemma progress_of_unique:
  assumes "distinct (map progress_key (progress db))" and "p \<in> set (progress db)"
  shows "progress_of db (p_student_id p) (p_chapter_id p) = [p]"
proof -
  have "progress_of db (p_student_id p) (p_chapter_id p) = [q \<leftarrow> progress db. progress_key q = progress_key p]"
    unfolding progress_of_def progress_key_def by (rule filter_cong) auto
  with filter_key_unique [OF assms] show ?thesis by simp
qed

lemma progress_of_cases:
  assumes "distinct (map progress_key (progress db))"
  shows "progress_of db studentId chapterId = [] \<or>
         (\<exists>p \<in> set (progress db). p_student_id p = studentId \<and> p_chapter_id p = chapterId \<and>
            progress_of db studentId chapterId = [p])"
proof (cases "progress_of db studentId chapterId")
  case Nil
  then show ?thesis by simp
next
  case (Cons p ps)
  then have "p \<in> set (progress_of db studentId chapterId)" by simp
  then have p: "p \<in> set (progress db)" "p_student_id p = studentId" "p_chapter_id p = chapterId"
    by (auto simp: progress_of_def)
  with progress_of_unique [OF assms p(1)] show ?thesis by auto
qed

lemma previous_unique:
  assumes "distinct (map order_key (chapters db))" and "prev \<in> set (chapters db)"
  shows "[c \<leftarrow> chapters db. ch_course_id c = ch_course_id prev \<and> sequence_order c = sequence_order prev] = [prev]"
proof -
  have "[c \<leftarrow> chapters db. ch_course_id c = ch_course_id prev \<and> sequence_order c = sequence_order prev] =
        [c \<leftarrow> chapters db. order_key c = order_key prev]"
    unfolding order_key_def by (rule filter_cong) auto
  with filter_key_unique [OF assms] show ?thesis by simp
qed

lemma gate_passes:
  assumes ords: "distinct (map order_key (chapters db))"
    and keys: "distinct (map progress_key (progress db))"
    and unl: "unlocked_by_spec db studentId ch"
  shows "\<not> (1 < sequence_order ch \<and>
            gate_fails (previousChapterCheck db studentId (ch_course_id ch) (sequence_order ch - 1)))"
proof (cases "sequence_order ch = 1")
  case True
  then show ?thesis by simp
next
  case False
  with unl obtain p prev where p: "p \<in> set (progress db)" and prev: "prev \<in> set (chapters db)"
    and c: "p_completed p" and s: "p_student_id p = studentId" and pc: "p_chapter_id p = ch_id prev"
    and pcourse: "ch_course_id prev = ch_course_id ch" and po: "sequence_order prev = sequence_order ch - 1"
    unfolding unlocked_by_spec_def by blast
  from previous_unique [OF ords prev] pcourse po
  have 1: "[c \<leftarrow> chapters db. ch_course_id c = ch_course_id ch \<and> sequence_order c = sequence_order ch - 1] = [prev]"
    by simp
  from progress_of_unique [OF keys p] s pc
  have 2: "progress_of db studentId (ch_id prev) = [p]" by simp
  have "previousChapterCheck db studentId (ch_course_id ch) (sequence_order ch - 1) = [Some True]"
    unfolding previousChapterCheck_def 1 by (simp add: left_join_def 2 completed_col_def c)
  then show ?thesis by (simp add: gate_fails_def)
qed

lemma upsert_frame:
  "chapters (fst (upsert_progress db now fresh studentId chapterId courseId)) = chapters db \<and>
   course_assignments (fst (upsert_progress db now fresh studentId chapterId courseId)) = course_assignments db \<and>
   courses (fst (upsert_progress db now fresh studentId chapterId courseId)) = courses db \<and>
   users (fst (upsert_progress db now fresh studentId chapterId courseId)) = users db \<and>
   certificates (fst (upsert_progress db now fresh studentId chapterId courseId)) = certificates db"
  by (simp add: upsert_progress_def Let_def split: list.splits)

lemma upsert_other:
  assumes "(studentId', chapterId') \<noteq> (studentId, chapterId)"
  shows "progress_of (fst (upsert_progress db now fresh studentId chapterId courseId)) studentId' chapterId' =
         progress_of db studentId' chapterId'"
proof (cases "progress_of db studentId chapterId")
  case Nil
  with assms show ?thesis
    by (auto simp: upsert_progress_def Let_def progress_of_def)
next
  case (Cons old olds)
  have "[p\<leftarrow>map (\<lambda>p. if p_chapter_id p = chapterId \<and> p_student_id p = studentId
                         then mark_completed now p else p) xs.
           p_chapter_id p = chapterId' \<and> p_student_id p = studentId'] =
        [p\<leftarrow>xs. p_chapter_id p = chapterId' \<and> p_student_id p = studentId']" for xs
    using assms by (induction xs) (auto simp: mark_completed_def)
  with Cons show ?thesis
    by (simp add: upsert_progress_def progress_of_def)
qed

lemma upsert_same:
  assumes keys: "distinct (map progress_key (progress db))"
    and inc: "\<forall>p \<in> set (progress db). p_student_id p = studentId \<and> p_chapter_id p = chapterId \<longrightarrow> \<not> p_completed p"
  shows "\<exists>row. progress_of (fst (upsert_progress db now fresh studentId chapterId courseId)) studentId chapterId = [row] \<and>
           snd (upsert_progress db now fresh studentId chapterId courseId) = row \<and>
           p_completed row \<and> p_completed_at row = Some now \<and>
           p_student_id row = studentId \<and> p_chapter_id row = chapterId"
proof (cases "progress_of db studentId chapterId")
  case Nil
  then have "[p\<leftarrow>progress db. p_chapter_id p = chapterId \<and> p_student_id p = studentId] = []"
    by (simp add: progress_of_def)
  with Nil show ?thesis
    by (simp add: upsert_progress_def Let_def progress_of_def)
next
  case (Cons old olds)
  with progress_of_cases [OF keys, of studentId chapterId]
  have one: "progress_of db studentId chapterId = [old]" by auto
  have m: "[p\<leftarrow>map (\<lambda>p. if p_chapter_id p = chapterId \<and> p_student_id p = studentId
                         then mark_completed now p else p) xs.
           p_chapter_id p = chapterId \<and> p_student_id p = studentId] =
        map (mark_completed now) [p\<leftarrow>xs. p_chapter_id p = chapterId \<and> p_student_id p = studentId]" for xs
    by (induction xs) (auto simp: mark_completed_def)
  from one have "old \<in> set (progress_of db studentId chapterId)" by simp
  then have old: "p_student_id old = studentId" "p_chapter_id old = chapterId"
    by (auto simp: progress_of_def)
  from one show ?thesis
    by (simp add: upsert_progress_def progress_of_def m old mark_completed_def)
qed

lemma upsert_keys:
  assumes keys: "distinct (map progress_key (progress db))"
  shows "distinct (map progress_key (progress (fst (upsert_progress db now fresh studentId chapterId courseId))))"
proof (cases "progress_of db studentId chapterId")
  case Nil
  then have "\<forall>p \<in> set (progress db). progress_key p \<noteq> (studentId, chapterId)"
    by (auto simp: progress_of_def filter_empty_conv progress_key_def)
  with Nil keys show ?thesis
    by (auto simp: upsert_progress_def Let_def progress_key_def)
next
  case (Cons old olds)
  have "progress_key \<circ> (\<lambda>p. if p_chapter_id p = chapterId \<and> p_student_id p = studentId
                         then mark_completed now p else p) = progress_key"
    by (auto simp: fun_eq_iff mark_completed_def progress_key_def)
  with Cons keys show ?thesis
    by (simp add: upsert_progress_def)
qed


lemma previousChapterCheck_upsert:
  assumes ids: "distinct (map ch_id (chapters db))" and ch: "ch \<in> set (chapters db)"
    and n: "n \<noteq> sequence_order ch"
  shows "previousChapterCheck (fst (upsert_progress db now fresh studentId (ch_id ch) courseId')) studentId courseId n =
         previousChapterCheck db studentId courseId n"
proof -
  let ?db' = "fst (upsert_progress db now fresh studentId (ch_id ch) courseId')"
  have "\<forall>prev \<in> set [c \<leftarrow> chapters db. ch_course_id c = courseId \<and> sequence_order c = n].
          progress_of ?db' studentId (ch_id prev) = progress_of db studentId (ch_id prev)"
  proof
    fix prev assume "prev \<in> set [c \<leftarrow> chapters db. ch_course_id c = courseId \<and> sequence_order c = n]"
    with n have "prev \<in> set (chapters db)" "prev \<noteq> ch" by auto
    with ids ch have "ch_id prev \<noteq> ch_id ch" by (auto simp: distinct_map inj_on_def)
    then show "progress_of ?db' studentId (ch_id prev) = progress_of db studentId (ch_id prev)"
      by (simp add: upsert_other)
  qed
  from left_join_cong [OF this] show ?thesis
    by (simp add: previousChapterCheck_def upsert_frame)
qed

text \<open>
  C3. A chapter that is unlocked for the student and not yet completed (the state
  \<open>unlocked-incomplete\<close>), the student enrolled, in a store that keeps its keys unique
  (chapter ids, orders within a course, (student, chapter) in \<open>progress\<close>). The first \<open>complete\<close> answers 200 with
  the upserted row, which is completed and stamped with the time of the call; a second
  \<open>complete\<close> on the resulting store answers 400 \<open>Chapter already completed\<close> and leaves
  that store as it is; the store then holds exactly one progress row for the (student,
  chapter) pair, and no key twice.
\<close>

theorem complete_twice:
  assumes ids: "distinct (map ch_id (chapters db))"
    and ords: "distinct (map order_key (chapters db))"
    and keys: "distinct (map progress_key (progress db))"
    and ch: "ch \<in> set (chapters db)"
    and enr: "enrollmentCheck db (ch_course_id ch) studentId \<noteq> []"
    and unl: "unlocked_by_spec db studentId ch"
    and inc: "\<forall>p \<in> set (progress db).
                p_student_id p = studentId \<and> p_chapter_id p = ch_id ch \<longrightarrow> \<not> p_completed p"
  shows "\<exists>payload db1.
           completeChapter db now1 fresh1 studentId (ch_id ch) = ((200, Payload payload), db1) \<and>
           p_completed (cb_progress payload) \<and>
           p_completed_at (cb_progress payload) = Some now1 \<and>
           p_student_id (cb_progress payload) = studentId \<and>
           p_chapter_id (cb_progress payload) = ch_id ch \<and>
           completeChapter db1 now2 fresh2 studentId (ch_id ch) =
             ((400, Error ''Chapter already completed''), db1) \<and>
           progress_of db1 studentId (ch_id ch) = [cb_progress payload] \<and>
           distinct (map progress_key (progress db1))"
proof -
  let ?up = "upsert_progress db now1 fresh1 studentId (ch_id ch) (ch_course_id ch)"
  let ?db1 = "fst ?up"
  have f: "[c \<leftarrow> chapters db. ch_id c = ch_id ch] = [ch]"
    using filter_key_unique [OF ids ch] .
  have gate: "\<not> (1 < sequence_order ch \<and>
            gate_fails (previousChapterCheck db studentId (ch_course_id ch) (sequence_order ch - 1)))"
    using gate_passes [OF ords keys unl] .
  have fresh_case: "\<not> (case progress_of db studentId (ch_id ch) of [] \<Rightarrow> False | existing # _ \<Rightarrow> p_completed existing)"
  proof (cases "progress_of db studentId (ch_id ch)")
    case Nil
    then show ?thesis by simp
  next
    case (Cons existing rest)
    then have "existing \<in> set (progress_of db studentId (ch_id ch))" by simp
    with inc have "\<not> p_completed existing" by (auto simp: progress_of_def)
    with Cons show ?thesis by simp
  qed
  have first: "completeChapter db now1 fresh1 studentId (ch_id ch) =
                 complete_ok db now1 fresh1 studentId (ch_id ch) ch"
    using enr gate fresh_case by (auto simp: completeChapter_def f)
  from upsert_same [OF keys inc, of now1 fresh1 "ch_course_id ch"]
  obtain row where row: "progress_of ?db1 studentId (ch_id ch) = [row]" "snd ?up = row"
    "p_completed row" "p_completed_at row = Some now1" "p_student_id row = studentId"
    "p_chapter_id row = ch_id ch"
    by blast
  obtain payload where payload: "complete_ok db now1 fresh1 studentId (ch_id ch) ch = ((200, Payload payload), ?db1)"
    and pr: "cb_progress payload = row"
    using row(2) by (simp add: complete_ok_def Let_def case_prod_beta)
  have f1: "[c \<leftarrow> chapters ?db1. ch_id c = ch_id ch] = [ch]"
    using f by (simp add: upsert_frame)
  have enr1: "enrollmentCheck ?db1 (ch_course_id ch) studentId \<noteq> []"
    using enr by (simp add: enrollmentCheck_def upsert_frame)
  have gate1: "\<not> (1 < sequence_order ch \<and>
            gate_fails (previousChapterCheck ?db1 studentId (ch_course_id ch) (sequence_order ch - 1)))"
    using gate previousChapterCheck_upsert [OF ids ch, of "sequence_order ch - 1"] by simp
  have second: "completeChapter ?db1 now2 fresh2 studentId (ch_id ch) =
             ((400, Error ''Chapter already completed''), ?db1)"
    using enr1 gate1 row(1) row(3) by (auto simp: completeChapter_def f1)
  from first payload pr row second upsert_keys [OF keys, of now1 fresh1 studentId "ch_id ch" "ch_course_id ch"]
  show ?thesis by auto
qed


theorem complete_twice_witness:
  "fst (fst (completeChapter example_db_A 8 ''p2'' ''s1'' ''B'')) = 200 \<and>
   snd (completeChapter example_db_A 8 ''p2'' ''s1'' ''B'') = example_db_AB \<and>
   completeChapter example_db_AB 9 ''p3'' ''s1'' ''B'' =
     ((400, Error ''Chapter already completed''), example_db_AB) \<and>
   length (progress_of example_db_AB ''s1'' ''B'') = 1"
proof -
  let ?B = "chapter_of ''B'' ''c1'' 2"
  have h1: "distinct (map ch_id (chapters example_db_A))"
    by (simp add: example_defs)
  have h2: "distinct (map order_key (chapters example_db_A))"
    by (simp add: example_defs order_key_def)
  have h3: "distinct (map progress_key (progress example_db_A))"
    by (simp add: example_defs progress_key_def)
  have h4: "?B \<in> set (chapters example_db_A)"
    by (simp add: example_defs)
  have h5: "enrollmentCheck example_db_A (ch_course_id ?B) ''s1'' \<noteq> []"
    by (simp add: example_defs enrollmentCheck_def)
  have h6: "unlocked_by_spec example_db_A ''s1'' ?B"
    by (simp add: example_defs unlocked_by_spec_def)
  have h7: "\<forall>p \<in> set (progress example_db_A).
              p_student_id p = ''s1'' \<and> p_chapter_id p = ch_id ?B \<longrightarrow> \<not> p_completed p"
    by (simp add: example_defs)
  have B: "ch_id ?B = ''B''" by (simp add: chapter_of_def)
  from complete_twice [OF h1 h2 h3 h4 h5 h6 h7, of 8 "''p2''" 9 "''p3''"]
  obtain payload db1 where
    1: "completeChapter example_db_A 8 ''p2'' ''s1'' ''B'' = ((200, Payload payload), db1)"
    and 2: "completeChapter db1 9 ''p3'' ''s1'' ''B'' = ((400, Error ''Chapter already completed''), db1)"
    and 3: "progress_of db1 ''s1'' ''B'' = [cb_progress payload]"
    unfolding B by blast
  have "snd (completeChapter example_db_A 8 ''p2'' ''s1'' ''B'') = example_db_AB"
    by (simp add: example_defs completeChapter_def complete_ok_def upsert_progress_def Let_def
        query_defs)
  with 1 have "db1 = example_db_AB" by simp
  with 1 2 3 show ?thesis by simp
qed


section \<open>deleteChapter\<close>

lemma sequence_order_renumber: "sequence_order (renumber d ch) = shift d (sequence_order ch)"
  by (simp add: renumber_def shift_def)

lemma shift_image:
  assumes "1 \<le> d" and "d \<le> n"
  shows "shift d ` ({1..n} - {d}) = {1..n - 1}"
proof (intro set_eqI iffI)
  fix k assume "k \<in> shift d ` ({1..n} - {d})"
  with assms show "k \<in> {1..n - 1}" by (auto simp: shift_def split: if_splits)
next
  fix k assume k: "k \<in> {1..n - 1}"
  show "k \<in> shift d ` ({1..n} - {d})"
  proof (cases "k < d")
    case True
    with k have "k \<in> {1..n} - {d}" "shift d k = k" by (auto simp: shift_def)
    then show ?thesis by (metis imageI)
  next
    case False
    with k have "k + 1 \<in> {1..n} - {d}" "shift d (k + 1) = k" by (auto simp: shift_def)
    then show ?thesis by (metis imageI)
  qed
qed

lemma shift_inj: "inj_on (shift d) (A - {d})"
  by (auto simp: inj_on_def shift_def split: if_splits)

lemma shift_mono: "a \<noteq> d \<Longrightarrow> b \<noteq> d \<Longrightarrow> (shift d a < shift d b) = (a < b)"
  by (auto simp: shift_def)

lemma chapterCheck_found:
  assumes ids: "distinct (map ch_id (chapters db))" and ch: "ch \<in> set (chapters db)"
    and own: "\<exists>c \<in> set (courses db). c_id c = ch_course_id ch \<and> c_mentor_id c = mentorId"
  shows "\<exists>rest. chapterCheck db mentorId (ch_course_id ch) (ch_id ch) = ch # rest"
proof -
  let ?rows = "chapterCheck db mentorId (ch_course_id ch) (ch_id ch)"
  have "ch \<in> set ?rows" using ch own by (auto simp: chapterCheck_def)
  then obtain x rest where r: "?rows = x # rest" by (cases ?rows) auto
  then have "x \<in> set ?rows" by simp
  then have "x \<in> set (chapters db)" "ch_id x = ch_id ch" by (auto simp: chapterCheck_def)
  with ids ch have "x = ch" by (auto simp: distinct_map inj_on_def)
  with r show ?thesis by simp
qed

lemma course_chapters_deleted:
  "course_chapters (reorder_statement courseId d (delete_statement chapterId db)) courseId' =
     (if courseId' = courseId
      then map (renumber d) [c \<leftarrow> course_chapters db courseId. ch_id c \<noteq> chapterId]
      else [c \<leftarrow> course_chapters db courseId'. ch_id c \<noteq> chapterId])"
proof -
  have "[b \<leftarrow> map (\<lambda>a. if ch_course_id a = courseId \<and> d < sequence_order a
                         then a\<lparr>sequence_order := sequence_order a - 1\<rparr> else a) xs.
           ch_course_id b = courseId'] =
        (if courseId' = courseId then map (renumber d) [c \<leftarrow> xs. ch_course_id c = courseId]
         else [c \<leftarrow> xs. ch_course_id c = courseId'])" for xs :: "'a chapter_row list"
    by (induction xs) (auto simp: renumber_def)
  then show ?thesis
    by (simp add: course_chapters_def reorder_statement_def delete_statement_def conj_commute)
qed


lemma remaining_orders:
  assumes ids: "distinct (map ch_id xs)" and ch: "ch \<in> set xs"
    and dist: "distinct (map sequence_order xs)"
    and dense: "set (map sequence_order xs) = {1..int (length xs)}"
  shows "length [c \<leftarrow> xs. ch_id c \<noteq> ch_id ch] = length xs - 1"
    and "set (map sequence_order [c \<leftarrow> xs. ch_id c \<noteq> ch_id ch]) =
           {1..int (length xs)} - {sequence_order ch}"
    and "distinct (map sequence_order [c \<leftarrow> xs. ch_id c \<noteq> ch_id ch])"
    and "1 \<le> sequence_order ch \<and> sequence_order ch \<le> int (length xs)"
proof -
  have one: "[c \<leftarrow> xs. ch_id c = ch_id ch] = [ch]"
    using filter_key_unique [OF ids ch] .
  have "length xs = length [c \<leftarrow> xs. ch_id c = ch_id ch] + length [c \<leftarrow> xs. \<not> ch_id c = ch_id ch]"
    by (rule sum_length_filter_compl [symmetric])
  with one show "length [c \<leftarrow> xs. ch_id c \<noteq> ch_id ch] = length xs - 1" by simp
  have rem: "set [c \<leftarrow> xs. ch_id c \<noteq> ch_id ch] = set xs - {ch}"
    using ids ch by (auto simp: distinct_map inj_on_def)
  have inj: "inj_on sequence_order (set xs)"
    using dist by (simp add: distinct_map)
  have "sequence_order ` (set xs - {ch}) = sequence_order ` set xs - {sequence_order ch}"
    using inj ch by (auto simp: inj_on_def)
  with rem dense show "set (map sequence_order [c \<leftarrow> xs. ch_id c \<noteq> ch_id ch]) =
           {1..int (length xs)} - {sequence_order ch}"
    by simp
  show "distinct (map sequence_order [c \<leftarrow> xs. ch_id c \<noteq> ch_id ch])"
    using dist by (rule distinct_map_filter)
  from ch have "sequence_order ch \<in> set (map sequence_order xs)" by simp
  with dense show "1 \<le> sequence_order ch \<and> sequence_order ch \<le> int (length xs)" by simp
qed

text \<open>
  C4. \<open>deleteChapter\<close> on a chapter of a course the mentor owns, the course holding the
  dense orders \<open>1..N\<close> (\<open>id\<close> is the primary key of \<open>chapters\<close>). The handler answers
  200; the chapters of the course are then the remaining ones, in their order in the
  table, each with its order decremented by 1 when it was greater than the deleted one;
  there is one chapter less; the course holds the dense orders \<open>1..N-1\<close>; and two
  remaining chapters compare after the renumbering as they did before.
\<close>

theorem delete_restores_density:
  assumes ids: "distinct (map ch_id (chapters db))"
    and ch: "ch \<in> set (chapters db)"
    and own: "\<exists>c \<in> set (courses db). c_id c = ch_course_id ch \<and> c_mentor_id c = mentorId"
    and dense: "dense_orders db (ch_course_id ch)"
  shows "\<exists>db'. deleteChapter db mentorId (ch_course_id ch) (ch_id ch) =
                 ((200, Message ''Chapter deleted successfully''), db') \<and>
           course_chapters db' (ch_course_id ch) =
             map (renumber (sequence_order ch))
               [c \<leftarrow> course_chapters db (ch_course_id ch). ch_id c \<noteq> ch_id ch] \<and>
           length (course_chapters db' (ch_course_id ch)) =
             length (course_chapters db (ch_course_id ch)) - 1 \<and>
           dense_orders db' (ch_course_id ch) \<and>
           (\<forall>a \<in> set (course_chapters db (ch_course_id ch)).
            \<forall>b \<in> set (course_chapters db (ch_course_id ch)).
              ch_id a \<noteq> ch_id ch \<and> ch_id b \<noteq> ch_id ch \<longrightarrow>
                (sequence_order (renumber (sequence_order ch) a) <
                   sequence_order (renumber (sequence_order ch) b)) =
                (sequence_order a < sequence_order b))"
proof -
  let ?C = "ch_course_id ch" and ?d = "sequence_order ch"
  let ?xs = "course_chapters db ?C"
  let ?R = "[c \<leftarrow> ?xs. ch_id c \<noteq> ch_id ch]"
  let ?db' = "reorder_statement ?C ?d (delete_statement (ch_id ch) db)"
  from chapterCheck_found [OF ids ch own] obtain rest where
    "chapterCheck db mentorId ?C (ch_id ch) = ch # rest" ..
  then have del: "deleteChapter db mentorId ?C (ch_id ch) =
                 ((200, Message ''Chapter deleted successfully''), ?db')"
    by (simp add: deleteChapter_def)
  have cc: "course_chapters ?db' ?C = map (renumber ?d) ?R"
    by (simp add: course_chapters_deleted)
  have ids': "distinct (map ch_id ?xs)"
    unfolding course_chapters_def using ids by (rule distinct_map_filter)
  have ch': "ch \<in> set ?xs" using ch by (simp add: course_chapters_def)
  from dense have dist: "distinct (map sequence_order ?xs)"
    and full: "set (map sequence_order ?xs) = {1..int (length ?xs)}"
    by (simp_all add: dense_orders_def Let_def)
  note rem = remaining_orders [OF ids' ch' dist full]
  have len: "length (course_chapters ?db' ?C) = length ?xs - 1"
    using rem(1) by (simp add: cc)
  have pos: "0 < length ?xs" using ch' by (cases ?xs) auto
  have os: "map sequence_order (course_chapters ?db' ?C) = map (shift ?d) (map sequence_order ?R)"
    by (simp add: cc sequence_order_renumber)
  have "inj_on (shift ?d) (set (map sequence_order ?R))"
    unfolding rem(2) by (rule shift_inj)
  with rem(3) have d1: "distinct (map sequence_order (course_chapters ?db' ?C))"
    unfolding os by (simp only: distinct_map [where f = "shift ?d"] simp_thms)
  have "set (map sequence_order (course_chapters ?db' ?C)) = shift ?d ` ({1..int (length ?xs)} - {?d})"
    unfolding os using rem(2) by (simp only: set_map)
  also have "\<dots> = {1..int (length ?xs) - 1}"
    using rem(4) by (simp add: shift_image)
  also have "\<dots> = {1..int (length (course_chapters ?db' ?C))}"
  proof -
    from len pos have "int (length (course_chapters ?db' ?C)) = int (length ?xs) - 1" by linarith
    then show ?thesis by simp
  qed
  finally have d2: "set (map sequence_order (course_chapters ?db' ?C)) =
                      {1..int (length (course_chapters ?db' ?C))}" .
  have dense': "dense_orders ?db' ?C"
    using d1 d2 by (simp add: dense_orders_def Let_def)
  have mono: "\<forall>a \<in> set ?xs. \<forall>b \<in> set ?xs.
              ch_id a \<noteq> ch_id ch \<and> ch_id b \<noteq> ch_id ch \<longrightarrow>
                (sequence_order (renumber ?d a) < sequence_order (renumber ?d b)) =
                (sequence_order a < sequence_order b)"
  proof (intro ballI impI)
    fix a b assume a: "a \<in> set ?xs" and b: "b \<in> set ?xs"
      and ne: "ch_id a \<noteq> ch_id ch \<and> ch_id b \<noteq> ch_id ch"
    from dist have inj: "inj_on sequence_order (set ?xs)" by (simp add: distinct_map)
    from ne have "a \<noteq> ch" "b \<noteq> ch" by auto
    with inj a b ch' have "sequence_order a \<noteq> ?d" "sequence_order b \<noteq> ?d"
      by (auto simp: inj_on_def)
    then show "(sequence_order (renumber ?d a) < sequence_order (renumber ?d b)) =
                (sequence_order a < sequence_order b)"
      by (simp add: sequence_order_renumber shift_mono)
  qed
  from del cc len dense' mono show ?thesis by blast
qed


theorem delete_restores_density_witness:
  "deleteChapter four_db ''m1'' ''c4'' ''X'' =
     ((200, Message ''Chapter deleted successfully''),
      four_db\<lparr>chapters := [chapter_of ''W'' ''c4'' 1, chapter_of ''Y'' ''c4'' 2,
                            chapter_of ''Z'' ''c4'' 3]\<rparr>) \<and>
   orders_view (snd (deleteChapter four_db ''m1'' ''c4'' ''X'')) =
     [(''W'', 1), (''Y'', 2), (''Z'', 3)] \<and>
   dense_orders four_db ''c4'' \<and>
   dense_orders (snd (deleteChapter four_db ''m1'' ''c4'' ''X'')) ''c4''"
proof -
  let ?X = "chapter_of ''X'' ''c4'' 2"
  have h1: "distinct (map ch_id (chapters four_db))"
    by (simp add: example_defs)
  have h2: "?X \<in> set (chapters four_db)"
    by (simp add: example_defs)
  have h3: "\<exists>c \<in> set (courses four_db). c_id c = ch_course_id ?X \<and> c_mentor_id c = ''m1''"
    by (simp add: example_defs)
  have "set [1, 2, 3, 4 :: int] = {1..4}" by auto
  then have h4: "dense_orders four_db (ch_course_id ?X)"
    by (simp add: example_defs dense_orders_def course_chapters_def)
  have X: "ch_id ?X = ''X''" "ch_course_id ?X = ''c4''" by (simp_all add: chapter_of_def)
  have e: "deleteChapter four_db ''m1'' ''c4'' ''X'' =
     ((200, Message ''Chapter deleted successfully''),
      four_db\<lparr>chapters := [chapter_of ''W'' ''c4'' 1, chapter_of ''Y'' ''c4'' 2,
                            chapter_of ''Z'' ''c4'' 3]\<rparr>)"
    by (simp add: example_defs deleteChapter_def chapterCheck_def reorder_statement_def
        delete_statement_def)
  from delete_restores_density [OF h1 h2 h3 h4] e
  have "dense_orders (snd (deleteChapter four_db ''m1'' ''c4'' ''X'')) ''c4''"
    unfolding X by auto
  with e h4 show ?thesis
    unfolding X by (simp add: orders_view_def example_defs)
qed

section \<open>deleteChapter: what a concurrent request can read\<close>

lemma deleteChapter_commits_last:
  "last (deleteChapter_commits db mentorId courseId chapterId) =
     snd (deleteChapter db mentorId courseId chapterId)"
  by (simp add: deleteChapter_commits_def deleteChapter_def split: list.splits)

text \<open>
  C10. The deletion and the reindexing are two statements, each committed on its own.
  Deleting X (order 2) from the four-chapter course commits, between the two, a store in
  which X is gone and the remaining chapters hold the orders 1, 3, 4: the gap is there to
  be read until the second statement has run.
\<close>

theorem deleteChapter_commits_gap:
  "map orders_view (deleteChapter_commits four_db ''m1'' ''c4'' ''X'') =
     [[(''W'', 1), (''X'', 2), (''Y'', 3), (''Z'', 4)],
      [(''W'', 1), (''Y'', 3), (''Z'', 4)],
      [(''W'', 1), (''Y'', 2), (''Z'', 3)]] \<and>
   \<not> dense_orders (deleteChapter_commits four_db ''m1'' ''c4'' ''X'' ! 1) ''c4''"
proof -
  have "(2 :: int) \<in> {1..3}" and "(2 :: int) \<notin> set [1, 3, 4]" by simp_all
  then have "set [1, 3, 4 :: int] \<noteq> {1..3}" by metis
  then show ?thesis
    by (simp add: example_defs deleteChapter_commits_def chapterCheck_def reorder_statement_def
        delete_statement_def orders_view_def dense_orders_def course_chapters_def)
qed


section \<open>resetProgress\<close>

text \<open>\<open>completeChapter\<close> keeps the \<open>course_id\<close> column in step with the chapters.\<close>

lemma upsert_consistent:
  assumes cons: "progress_consistent db"
    and new: "\<forall>ch \<in> set (chapters db). ch_id ch = chapterId \<longrightarrow> ch_course_id ch = courseId"
  shows "progress_consistent (fst (upsert_progress db now fresh studentId chapterId courseId))"
proof (cases "progress_of db studentId chapterId")
  case Nil
  with cons new show ?thesis
    by (auto simp: upsert_progress_def Let_def progress_consistent_def)
next
  case (Cons old olds)
  with cons show ?thesis
    by (auto simp: upsert_progress_def progress_consistent_def mark_completed_def)
qed

lemma completeChapter_consistent:
  assumes ids: "distinct (map ch_id (chapters db))" and cons: "progress_consistent db"
  shows "progress_consistent (snd (completeChapter db now fresh studentId chapterId))"
proof (cases "[ch \<leftarrow> chapters db. ch_id ch = chapterId]")
  case Nil
  with cons show ?thesis by (simp add: completeChapter_def)
next
  case (Cons found rest)
  then have "found \<in> set [ch \<leftarrow> chapters db. ch_id ch = chapterId]" by simp
  then have mem: "found \<in> set (chapters db)" and cid: "ch_id found = chapterId" by auto
  have "\<forall>ch \<in> set (chapters db). ch_id ch = chapterId \<longrightarrow> ch_course_id ch = ch_course_id found"
    using ids mem cid by (auto simp: distinct_map inj_on_def)
  from upsert_consistent [OF cons this]
  have "progress_consistent (snd (complete_ok db now fresh studentId chapterId found))"
    by (simp add: complete_ok_def Let_def case_prod_beta)
  with cons Cons show ?thesis by (simp add: completeChapter_def)
qed

lemma reset_progress_of:
  assumes cons: "progress_consistent db" and ch: "ch \<in> set (chapters db)"
    and c: "ch_course_id ch = courseId"
  shows "progress_of (snd (resetProgress db studentId courseId)) studentId (ch_id ch) = [] \<or>
         enrollmentCheck db courseId studentId = []"
proof (cases "enrollmentCheck db courseId studentId = []")
  case True
  then show ?thesis by simp
next
  case False
  have "\<forall>p \<in> set (progress db).
          \<not> (\<not> (p_student_id p = studentId \<and> p_course_id p = courseId) \<and>
             p_chapter_id p = ch_id ch \<and> p_student_id p = studentId)"
    using cons ch c unfolding progress_consistent_def by blast
  with False show ?thesis
    by (simp add: resetProgress_def progress_of_def filter_empty_conv)
qed

lemma reset_frame:
  "users (snd (resetProgress db studentId courseId)) = users db \<and>
   courses (snd (resetProgress db studentId courseId)) = courses db \<and>
   chapters (snd (resetProgress db studentId courseId)) = chapters db \<and>
   course_assignments (snd (resetProgress db studentId courseId)) = course_assignments db \<and>
   certificates (snd (resetProgress db studentId courseId)) = certificates db"
  by (simp add: resetProgress_def)

lemma course_rows_no_progress:
  assumes "\<forall>ch \<in> set (course_chapters db courseId). progress_of db studentId (ch_id ch) = []"
    and "(cho, p) \<in> set (course_rows db studentId courseId base)"
  shows "p = None"
proof (cases p)
  case None
  then show ?thesis .
next
  case (Some q)
  with assms(2) obtain b where
    "((b, cho), Some q) \<in> set (left_join
          (left_join base (\<lambda>c. sort_key sequence_order (course_chapters db courseId)))
          (\<lambda>(c, ch). case ch of None \<Rightarrow> [] | Some ch' \<Rightarrow> progress_of db studentId (ch_id ch')))"
    by (auto simp: course_rows_def)
  then have "(b, cho) \<in> set (left_join base (\<lambda>c. sort_key sequence_order (course_chapters db courseId)))"
    and q: "q \<in> set (case cho of None \<Rightarrow> [] | Some ch' \<Rightarrow> progress_of db studentId (ch_id ch'))"
    by (auto simp: set_left_join_Some)
  then obtain ch where "cho = Some ch" "ch \<in> set (course_chapters db courseId)"
    by (cases cho) (auto simp: set_left_join_Some)
  with q assms(1) show ?thesis by auto
qed

lemma unlocked_no_progress:
  assumes "\<forall>prev \<in> set (course_chapters db (ch_course_id ch)). progress_of db studentId (ch_id prev) = []"
  shows "unlocked_by_spec db studentId ch = (sequence_order ch = 1)"
proof -
  have "\<not> (\<exists>p \<in> set (progress db). \<exists>prev \<in> set (chapters db).
          p_completed p \<and> p_student_id p = studentId \<and> p_chapter_id p = ch_id prev \<and>
          ch_course_id prev = ch_course_id ch \<and> sequence_order prev = sequence_order ch - 1)"
  proof
    assume "\<exists>p \<in> set (progress db). \<exists>prev \<in> set (chapters db).
          p_completed p \<and> p_student_id p = studentId \<and> p_chapter_id p = ch_id prev \<and>
          ch_course_id prev = ch_course_id ch \<and> sequence_order prev = sequence_order ch - 1"
    then obtain p prev where "p \<in> set (progress db)" "prev \<in> set (chapters db)"
      "p_student_id p = studentId" "p_chapter_id p = ch_id prev" "ch_course_id prev = ch_course_id ch"
      by blast
    then have "prev \<in> set (course_chapters db (ch_course_id ch))"
      and "p \<in> set (progress_of db studentId (ch_id prev))"
      by (auto simp: course_chapters_def progress_of_def)
    with assms show False by auto
  qed
  then show ?thesis unfolding unlocked_by_spec_def by blast
qed


text \<open>
  C6. \<open>resetProgress\<close>. A student who is not enrolled gets 403 and the store back as it
  was. For an enrolled student the handler answers 200 and deletes exactly the progress
  rows of the (student, course) pair; the other five tables, the enrollment among them, are
  unchanged. Where the \<open>course_id\<close> column of the progress rows agrees with their
  chapters, \<open>getCourseProgress\<close> on the resulting store has an object for every chapter of
  the course, no object is completed, and \<open>is_unlocked\<close> is true exactly for the objects
  with \<open>sequence_order\<close> 1.
\<close>

theorem reset_effect:
  "(enrollmentCheck db courseId studentId = [] \<longrightarrow>
      resetProgress db studentId courseId =
        ((403, Error ''You are not enrolled in this course''), db)) \<and>
   (enrollmentCheck db courseId studentId \<noteq> [] \<longrightarrow>
      (\<exists>db'. resetProgress db studentId courseId =
               ((200, Message ''Progress reset successfully''), db') \<and>
         progress db' =
           [p \<leftarrow> progress db. \<not> (p_student_id p = studentId \<and> p_course_id p = courseId)] \<and>
         users db' = users db \<and> courses db' = courses db \<and> chapters db' = chapters db \<and>
         course_assignments db' = course_assignments db \<and>
         certificates db' = certificates db \<and>
         (progress_consistent db \<and> [c \<leftarrow> courses db. c_id c = courseId] \<noteq> [] \<longrightarrow>
            (\<exists>r es. getCourseProgress db' studentId courseId = (200, Payload r) \<and>
               cp_completed_chapters r = 0 \<and>
               cp_chapters r = Some es \<and>
               (\<forall>ch \<in> set (course_chapters db courseId). \<exists>e \<in> set es. entry_of e ch) \<and>
               (\<forall>e \<in> set es. \<not> j_completed e \<and>
                                j_is_unlocked e = Some (j_sequence_order e = Some 1))))))"
proof (intro conjI impI)
  assume "enrollmentCheck db courseId studentId = []"
  then show "resetProgress db studentId courseId =
        ((403, Error ''You are not enrolled in this course''), db)"
    by (simp add: resetProgress_def)
next
  assume enr: "enrollmentCheck db courseId studentId \<noteq> []"
  let ?db' = "snd (resetProgress db studentId courseId)"
  have r: "resetProgress db studentId courseId =
               ((200, Message ''Progress reset successfully''), ?db')"
    and p: "progress ?db' =
           [p \<leftarrow> progress db. \<not> (p_student_id p = studentId \<and> p_course_id p = courseId)]"
    using enr by (simp_all add: resetProgress_def)
  note frame = reset_frame [of db studentId courseId]
  have view: "\<exists>r es. getCourseProgress ?db' studentId courseId = (200, Payload r) \<and>
               cp_completed_chapters r = 0 \<and>
               cp_chapters r = Some es \<and>
               (\<forall>ch \<in> set (course_chapters db courseId). \<exists>e \<in> set es. entry_of e ch) \<and>
               (\<forall>e \<in> set es. \<not> j_completed e \<and>
                                j_is_unlocked e = Some (j_sequence_order e = Some 1))"
    if cons: "progress_consistent db" and course: "[c \<leftarrow> courses db. c_id c = courseId] \<noteq> []"
  proof -
    from course obtain c cs where c: "[c \<leftarrow> courses db. c_id c = courseId] = c # cs"
      by (cases "[c \<leftarrow> courses db. c_id c = courseId]") auto
    let ?rows = "course_rows ?db' studentId courseId [c]"
    let ?es = "map (chapter_object ?db' studentId True) ?rows"
    have cc: "course_chapters ?db' courseId = course_chapters db courseId"
      by (simp add: course_chapters_def frame)
    have none: "\<forall>ch \<in> set (course_chapters ?db' courseId). progress_of ?db' studentId (ch_id ch) = []"
    proof
      fix ch assume "ch \<in> set (course_chapters ?db' courseId)"
      then have "ch \<in> set (chapters db)" "ch_course_id ch = courseId"
        by (auto simp: course_chapters_def frame)
      from reset_progress_of [OF cons this, of studentId] enr
      show "progress_of ?db' studentId (ch_id ch) = []" by blast
    qed
    have rows_none: "snd row = None" if "row \<in> set ?rows" for row
      using course_rows_no_progress [OF none, of "fst row" "snd row" "[c]"] that by simp
    have enr': "enrollmentCheck ?db' courseId studentId \<noteq> []"
      using enr by (simp add: enrollmentCheck_def frame)
    have "[r \<leftarrow> ?rows. completed_col (snd r) = Some True] = []"
      using rows_none by (auto simp: filter_empty_conv completed_col_def)
    then have zero: "count_completed ?rows = 0" by (simp add: count_completed_def)
    have g: "getCourseProgress ?db' studentId courseId =
       (200, Payload
         \<lparr>cp_course_id = c_id c, cp_course_title = c_title c,
          cp_course_description = c_description c, cp_mentor_name = None,
          cp_total_chapters = count_chapters ?rows,
          cp_completed_chapters = count_completed ?rows,
          cp_completion_percentage = sql_percentage (count_completed ?rows) (count_chapters ?rows),
          cp_chapters = Some ?es, cp_assigned_at = None\<rparr>)"
      using enr' c by (simp add: getCourseProgress_def frame Let_def)
    have cover: "\<forall>ch \<in> set (course_chapters db courseId). \<exists>e \<in> set ?es. entry_of e ch"
    proof
      fix ch assume "ch \<in> set (course_chapters db courseId)"
      with cc course_rows_covers [of "[c]" ch ?db' courseId studentId]
      obtain p where "(Some ch, p) \<in> set ?rows" by auto
      then have "chapter_object ?db' studentId True (Some ch, p) \<in> set ?es" by force
      with chapter_object_Some [of ?db' studentId ch p]
      show "\<exists>e \<in> set ?es. entry_of e ch" by blast
    qed
    have flags: "\<forall>e \<in> set ?es. \<not> j_completed e \<and>
                                j_is_unlocked e = Some (j_sequence_order e = Some 1)"
    proof
      fix e assume "e \<in> set ?es"
      then obtain cho p where row: "(cho, p) \<in> set ?rows"
        and e: "e = chapter_object ?db' studentId True (cho, p)" by auto
      from rows_none [OF row] have p: "p = None" by simp
      show "\<not> j_completed e \<and> j_is_unlocked e = Some (j_sequence_order e = Some 1)"
      proof (cases cho)
        case None
        with e p show ?thesis by (simp add: chapter_object_def completed_col_def)
      next
        case (Some ch)
        with row have "ch \<in> set (course_chapters ?db' courseId)" by (simp add: course_rows_Some)
        then have "ch_course_id ch = courseId" by (simp add: course_chapters_def)
        with none have "unlocked_by_spec ?db' studentId ch = (sequence_order ch = 1)"
          by (simp add: unlocked_no_progress)
        with e p Some show ?thesis
          by (simp add: chapter_object_def completed_col_def is_unlocked_iff)
      qed
    qed
    from g zero cover flags show ?thesis by simp
  qed
  from r p frame view
  show "\<exists>db'. resetProgress db studentId courseId =
               ((200, Message ''Progress reset successfully''), db') \<and>
         progress db' =
           [p \<leftarrow> progress db. \<not> (p_student_id p = studentId \<and> p_course_id p = courseId)] \<and>
         users db' = users db \<and> courses db' = courses db \<and> chapters db' = chapters db \<and>
         course_assignments db' = course_assignments db \<and>
         certificates db' = certificates db \<and>
         (progress_consistent db \<and> [c \<leftarrow> courses db. c_id c = courseId] \<noteq> [] \<longrightarrow>
            (\<exists>r es. getCourseProgress db' studentId courseId = (200, Payload r) \<and>
               cp_completed_chapters r = 0 \<and>
               cp_chapters r = Some es \<and>
               (\<forall>ch \<in> set (course_chapters db courseId). \<exists>e \<in> set es. entry_of e ch) \<and>
               (\<forall>e \<in> set es. \<not> j_completed e \<and>
                                j_is_unlocked e = Some (j_sequence_order e = Some 1))))"
    by blast
qed


theorem reset_effect_witness:
  "resetProgress example_db_AB ''s1'' ''c1'' =
     ((200, Message ''Progress reset successfully''), example_db) \<and>
   chapter_view (getCourseProgress example_db ''s1'' ''c1'') =
     (200, [(Some ''A'', False, Some True), (Some ''B'', False, Some False),
            (Some ''C'', False, Some False)]) \<and>
   resetProgress example_db_AB ''s2'' ''c1'' =
     ((403, Error ''You are not enrolled in this course''), example_db_AB) \<and>
   progress_consistent example_db_AB"
  using reset_effect [of example_db_AB "''c1''" "''s1''"]
    reset_effect [of example_db_AB "''c1''" "''s2''"]
  by (simp add: example_defs resetProgress_def getCourseProgress_def chapter_view_def Let_def
      course_rows_def chapter_object_def is_unlocked_def progress_consistent_def query_defs)


section \<open>Values of the arithmetic\<close>

lemma percentage_full: "\<not> js_less (completionPercentage 3 3) 100"
  by code_simp

section \<open>getCertificate\<close>

lemma eligibility_cong:
  assumes "course_assignments db' = course_assignments db" and "chapters db' = chapters db"
    and "progress db' = progress db"
  shows "checkCertificateEligibility db' studentId courseId =
         checkCertificateEligibility db studentId courseId"
  using assms
  by (simp add: checkCertificateEligibility_def enrollmentCheck_def total_chapters_def
      completed_chapters_def completion_rows_def course_chapters_def progress_of_def)

text \<open>
  The handler's two lookups, read as sets of rows, and the tables it leaves alone.
\<close>

lemma certificate_rows_Nil:
  "certificate_rows db studentId courseId = [] \<longleftrightarrow>
     \<not> (\<exists>cert \<in> set (certificates db).
          cert_student_id cert = studentId \<and> cert_course_id cert = courseId)"
  by (auto simp: certificate_rows_def filter_empty_conv)

lemma detailsResult_Nil:
  "detailsResult db studentId courseId = [] \<longleftrightarrow>
     \<not> ((\<exists>u \<in> set (users db). u_id u = studentId) \<and>
        (\<exists>c \<in> set (courses db). c_id c = courseId))"
  by (auto simp: detailsResult_def)

lemma detailsResult_Cons:
  "detailsResult db studentId courseId = (u, c) # rest \<Longrightarrow>
     u \<in> set (users db) \<and> u_id u = studentId \<and> c \<in> set (courses db) \<and> c_id c = courseId"
proof -
  assume "detailsResult db studentId courseId = (u, c) # rest"
  then have "(u, c) \<in> set (detailsResult db studentId courseId)" by simp
  then show ?thesis by (auto simp: detailsResult_def)
qed

lemma getCertificate_cases:
  assumes el: "eligible (checkCertificateEligibility db studentId courseId)"
  shows "\<exists>res db1.
           getCertificate db now1 fresh1 studentId courseId = (res, db1) \<and>
           getCertificate db1 now2 fresh2 studentId courseId = (res, db1) \<and>
           (certificate_rows db studentId courseId \<noteq> [] \<longrightarrow> db1 = db) \<and>
           (certificate_rows db studentId courseId = [] \<longrightarrow>
              db1 = db\<lparr>certificates := certificates db @
                       [\<lparr>cert_id = fresh1, cert_student_id = studentId,
                         cert_course_id = courseId, cert_issued_at = now1,
                         cert_certificate_url = None\<rparr>]\<rparr>) \<and>
           (detailsResult db studentId courseId = [] \<longrightarrow>
              res = (500, Error ''Failed to generate certificate'')) \<and>
           (detailsResult db studentId courseId \<noteq> [] \<longrightarrow>
              (\<exists>cert rest u c others.
                 certificate_rows db1 studentId courseId = cert # rest \<and>
                 detailsResult db studentId courseId = (u, c) # others \<and>
                 res = (200, Payload (CertificatePDF
                          \<lparr>student_name = u_full_name u, course_title = c_title c,
                           completion_date = cert_issued_at cert,
                           certificate_id = cert_id cert\<rparr>))))"
proof (cases "certificate_rows db studentId courseId")
  case Nil
  let ?new = "\<lparr>cert_id = fresh1, cert_student_id = studentId,
                         cert_course_id = courseId, cert_issued_at = now1,
                         cert_certificate_url = None\<rparr>"
  let ?db1 = "db\<lparr>certificates := certificates db @ [?new]\<rparr>"
  have el1: "eligible (checkCertificateEligibility ?db1 studentId courseId)"
    using el eligibility_cong [of ?db1 db studentId courseId] by simp
  have det1: "detailsResult ?db1 studentId courseId = detailsResult db studentId courseId"
    by (simp add: detailsResult_def)
  have rows1: "certificate_rows ?db1 studentId courseId = [?new]"
    using Nil by (simp add: certificate_rows_def)
  show ?thesis
  proof (cases "detailsResult db studentId courseId")
    case Nil': Nil
    have 1: "getCertificate db now1 fresh1 studentId courseId =
               ((500, Error ''Failed to generate certificate''), ?db1)"
      unfolding getCertificate_def by (simp only: Let_def el Nil Nil') simp
    have 2: "getCertificate ?db1 now2 fresh2 studentId courseId =
               ((500, Error ''Failed to generate certificate''), ?db1)"
      unfolding getCertificate_def by (simp only: Let_def el1 rows1 Nil' det1) simp
    from 1 2 Nil Nil' show ?thesis by simp
  next
    case (Cons uc ucs)
    obtain u c where uc: "uc = (u, c)" by (cases uc)
    let ?res = "(200 :: nat, Payload (CertificatePDF
                        \<lparr>student_name = u_full_name u, course_title = c_title c,
                         completion_date = now1, certificate_id = fresh1\<rparr>))"
    have 1: "getCertificate db now1 fresh1 studentId courseId = (?res, ?db1)"
      unfolding getCertificate_def by (simp only: Let_def el Nil Cons uc) simp
    have 2: "getCertificate ?db1 now2 fresh2 studentId courseId = (?res, ?db1)"
      unfolding getCertificate_def by (simp only: Let_def el1 rows1 Cons uc det1) simp
    from 1 2 Nil rows1 Cons uc show ?thesis by simp
  qed
next
  case (Cons cert rest)
  show ?thesis
  proof (cases "detailsResult db studentId courseId")
    case Nil
    have 1: "getCertificate db now fresh studentId courseId =
               ((500, Error ''Failed to generate certificate''), db)" for now fresh
      unfolding getCertificate_def by (simp only: Let_def el Cons Nil) simp
    from 1 [of now1 fresh1] 1 [of now2 fresh2] Nil Cons show ?thesis by simp
  next
    case Cons': (Cons uc ucs)
    obtain u c where uc: "uc = (u, c)" by (cases uc)
    let ?res = "(200 :: nat, Payload (CertificatePDF
                        \<lparr>student_name = u_full_name u, course_title = c_title c,
                         completion_date = cert_issued_at cert, certificate_id = cert_id cert\<rparr>))"
    have 1: "getCertificate db now fresh studentId courseId = (?res, db)" for now fresh
      unfolding getCertificate_def by (simp only: Let_def el Cons Cons' uc) simp
    from 1 [of now1 fresh1] 1 [of now2 fresh2] Cons Cons' uc show ?thesis by simp
  qed
qed

text \<open>
  C8. \<open>getCertificate\<close>, the handler that issues or fetches the certificate, for an
  eligible student \<open>S\<close> and course \<open>C\<close>. A second call on the store the first one leaves
  returns the same response and leaves that store as it is. When the table
  \<open>certificates\<close> holds a row whose \<open>student_id\<close> is \<open>S\<close> and whose \<open>course_id\<close> is \<open>C\<close>,
  the first call does not change the store; when it holds none, the call appends exactly
  one row, of \<open>S\<close> and \<open>C\<close> with the generated id, the table then holds exactly one row of
  the pair, and every row it held before is still there. The other tables are unchanged.
  When a user row of \<open>S\<close> and a course row of \<open>C\<close> exist, the response is the document
  built from such rows and from the first row of the table that belongs to \<open>S\<close> and \<open>C\<close>:
  it carries that row's id and date, and so do both calls; when one of them is missing
  the response is the 500 of the \<open>catch\<close>, both times.
\<close>

theorem getCertificate_idempotent:
  assumes el: "eligible (checkCertificateEligibility db studentId courseId)"
  shows "\<exists>res db1.
           getCertificate db now1 fresh1 studentId courseId = (res, db1) \<and>
           getCertificate db1 now2 fresh2 studentId courseId = (res, db1) \<and>
           ((\<exists>cert \<in> set (certificates db).
                cert_student_id cert = studentId \<and> cert_course_id cert = courseId) \<longrightarrow>
              db1 = db) \<and>
           (\<not> (\<exists>cert \<in> set (certificates db).
                cert_student_id cert = studentId \<and> cert_course_id cert = courseId) \<longrightarrow>
              certificates db1 = certificates db @
                 [\<lparr>cert_id = fresh1, cert_student_id = studentId, cert_course_id = courseId,
                   cert_issued_at = now1, cert_certificate_url = None\<rparr>] \<and>
              [cert \<leftarrow> certificates db1.
                 cert_student_id cert = studentId \<and> cert_course_id cert = courseId] =
                 [\<lparr>cert_id = fresh1, cert_student_id = studentId, cert_course_id = courseId,
                   cert_issued_at = now1, cert_certificate_url = None\<rparr>]) \<and>
           users db1 = users db \<and> courses db1 = courses db \<and> chapters db1 = chapters db \<and>
           course_assignments db1 = course_assignments db \<and> progress db1 = progress db \<and>
           (\<not> ((\<exists>u \<in> set (users db). u_id u = studentId) \<and>
               (\<exists>c \<in> set (courses db). c_id c = courseId)) \<longrightarrow>
              res = (500, Error ''Failed to generate certificate'')) \<and>
           ((\<exists>u \<in> set (users db). u_id u = studentId) \<and>
            (\<exists>c \<in> set (courses db). c_id c = courseId) \<longrightarrow>
              (\<exists>cert rest u c.
                 [cert \<leftarrow> certificates db1.
                    cert_student_id cert = studentId \<and> cert_course_id cert = courseId] =
                   cert # rest \<and>
                 cert \<in> set (certificates db1) \<and>
                 cert_student_id cert = studentId \<and> cert_course_id cert = courseId \<and>
                 u \<in> set (users db) \<and> u_id u = studentId \<and>
                 c \<in> set (courses db) \<and> c_id c = courseId \<and>
                 res = (200, Payload (CertificatePDF
                          \<lparr>student_name = u_full_name u, course_title = c_title c,
                           completion_date = cert_issued_at cert,
                           certificate_id = cert_id cert\<rparr>))))"
proof -
  let ?P = "\<lambda>cert. cert_student_id cert = studentId \<and> cert_course_id cert = courseId"
  let ?new = "\<lparr>cert_id = fresh1, cert_student_id = studentId, cert_course_id = courseId,
                cert_issued_at = now1, cert_certificate_url = None\<rparr>"
  from getCertificate_cases [OF el, of now1 fresh1 now2 fresh2]
  obtain res db1 where
    first: "getCertificate db now1 fresh1 studentId courseId = (res, db1)"
    and second: "getCertificate db1 now2 fresh2 studentId courseId = (res, db1)"
    and keep: "certificate_rows db studentId courseId \<noteq> [] \<longrightarrow> db1 = db"
    and add: "certificate_rows db studentId courseId = [] \<longrightarrow>
                db1 = db\<lparr>certificates := certificates db @ [?new]\<rparr>"
    and fail: "detailsResult db studentId courseId = [] \<longrightarrow>
                 res = (500, Error ''Failed to generate certificate'')"
    and doc: "detailsResult db studentId courseId \<noteq> [] \<longrightarrow>
              (\<exists>cert rest u c others.
                 certificate_rows db1 studentId courseId = cert # rest \<and>
                 detailsResult db studentId courseId = (u, c) # others \<and>
                 res = (200, Payload (CertificatePDF
                          \<lparr>student_name = u_full_name u, course_title = c_title c,
                           completion_date = cert_issued_at cert,
                           certificate_id = cert_id cert\<rparr>)))"
    by blast
  have c1: "(\<exists>cert \<in> set (certificates db). ?P cert) \<longrightarrow> db1 = db"
    using keep by (simp add: certificate_rows_Nil)
  have c2: "\<not> (\<exists>cert \<in> set (certificates db). ?P cert) \<longrightarrow>
              certificates db1 = certificates db @ [?new] \<and>
              [cert \<leftarrow> certificates db1. ?P cert] = [?new]"
  proof
    assume none: "\<not> (\<exists>cert \<in> set (certificates db). ?P cert)"
    then have e: "certificate_rows db studentId courseId = []"
      by (simp add: certificate_rows_Nil)
    with add have d: "db1 = db\<lparr>certificates := certificates db @ [?new]\<rparr>" by simp
    from e have "[cert \<leftarrow> certificates db. ?P cert] = []" by (simp add: certificate_rows_def)
    with d show "certificates db1 = certificates db @ [?new] \<and>
              [cert \<leftarrow> certificates db1. ?P cert] = [?new]"
      by simp
  qed
  have frame: "users db1 = users db \<and> courses db1 = courses db \<and> chapters db1 = chapters db \<and>
           course_assignments db1 = course_assignments db \<and> progress db1 = progress db"
  proof (cases "certificate_rows db studentId courseId = []")
    case True
    with add show ?thesis by simp
  next
    case False
    with keep show ?thesis by simp
  qed
  have c3: "\<not> ((\<exists>u \<in> set (users db). u_id u = studentId) \<and>
               (\<exists>c \<in> set (courses db). c_id c = courseId)) \<longrightarrow>
              res = (500, Error ''Failed to generate certificate'')"
    using fail by (simp only: detailsResult_Nil)
  have c4: "(\<exists>u \<in> set (users db). u_id u = studentId) \<and>
            (\<exists>c \<in> set (courses db). c_id c = courseId) \<longrightarrow>
              (\<exists>cert rest u c.
                 [cert \<leftarrow> certificates db1. ?P cert] = cert # rest \<and>
                 cert \<in> set (certificates db1) \<and> ?P cert \<and>
                 u \<in> set (users db) \<and> u_id u = studentId \<and>
                 c \<in> set (courses db) \<and> c_id c = courseId \<and>
                 res = (200, Payload (CertificatePDF
                          \<lparr>student_name = u_full_name u, course_title = c_title c,
                           completion_date = cert_issued_at cert,
                           certificate_id = cert_id cert\<rparr>)))"
  proof
    assume "(\<exists>u \<in> set (users db). u_id u = studentId) \<and>
            (\<exists>c \<in> set (courses db). c_id c = courseId)"
    then have "detailsResult db studentId courseId \<noteq> []"
      by (simp only: detailsResult_Nil simp_thms)
    with doc obtain cert rest u c others where
      rows: "certificate_rows db1 studentId courseId = cert # rest"
      and det: "detailsResult db studentId courseId = (u, c) # others"
      and res: "res = (200, Payload (CertificatePDF
                          \<lparr>student_name = u_full_name u, course_title = c_title c,
                           completion_date = cert_issued_at cert,
                           certificate_id = cert_id cert\<rparr>))"
      by blast
    from rows have f: "[cert \<leftarrow> certificates db1. ?P cert] = cert # rest"
      by (simp add: certificate_rows_def)
    then have "cert \<in> set [cert \<leftarrow> certificates db1. ?P cert]" by simp
    then have m: "cert \<in> set (certificates db1)" "?P cert" by simp_all
    from detailsResult_Cons [OF det] f m res
    show "\<exists>cert rest u c.
                 [cert \<leftarrow> certificates db1. ?P cert] = cert # rest \<and>
                 cert \<in> set (certificates db1) \<and> ?P cert \<and>
                 u \<in> set (users db) \<and> u_id u = studentId \<and>
                 c \<in> set (courses db) \<and> c_id c = courseId \<and>
                 res = (200, Payload (CertificatePDF
                          \<lparr>student_name = u_full_name u, course_title = c_title c,
                           completion_date = cert_issued_at cert,
                           certificate_id = cert_id cert\<rparr>))"
      by blast
  qed
  from first second c1 c2 frame c3 c4 show ?thesis by blast
qed

theorem getCertificate_idempotent_witness:
  "eligible (checkCertificateEligibility example_db_other ''s1'' ''c1'') \<and>
   getCertificate example_db_other 10 ''k1'' ''s1'' ''c1'' =
     ((200, Payload (CertificatePDF
        \<lparr>student_name = ''Sam'', course_title = ''Course'', completion_date = 10,
         certificate_id = ''k1''\<rparr>)), example_db_issued) \<and>
   getCertificate example_db_issued 11 ''k2'' ''s1'' ''c1'' =
     ((200, Payload (CertificatePDF
        \<lparr>student_name = ''Sam'', course_title = ''Course'', completion_date = 10,
         certificate_id = ''k1''\<rparr>)), example_db_issued) \<and>
   map cert_id (certificates example_db_other) = [''k7'', ''k0''] \<and>
   map cert_id (certificates example_db_issued) = [''k7'', ''k0'', ''k1'']"
proof -
  have t: "total_chapters example_db_other ''s1'' ''c1'' = 3"
    and c: "completed_chapters example_db_other ''s1'' ''c1'' = 3"
    by (simp_all add: example_defs query_defs)
  have e: "enrollmentCheck example_db_other ''c1'' ''s1'' \<noteq> []"
    by (simp add: example_defs enrollmentCheck_def)
  have h: "eligible (checkCertificateEligibility example_db_other ''s1'' ''c1'')"
    unfolding checkCertificateEligibility_def
    by (simp only: Let_def t c) (simp add: e percentage_full)
  have none: "\<not> (\<exists>cert \<in> set (certificates example_db_other).
                   cert_student_id cert = ''s1'' \<and> cert_course_id cert = ''c1'')"
    by (simp add: example_defs)
  have ex: "(\<exists>u \<in> set (users example_db_other). u_id u = ''s1'') \<and>
            (\<exists>c \<in> set (courses example_db_other). c_id c = ''c1'')"
    by (simp add: example_defs)
  have ids: "map cert_id (certificates example_db_other) = [''k7'', ''k0'']"
    "map cert_id (certificates example_db_issued) = [''k7'', ''k0'', ''k1'']"
    by (simp_all add: example_defs)
  from getCertificate_idempotent [OF h, of 10 "''k1''" 11 "''k2''"] none ex
  obtain res db1 cert rest u c where
    1: "getCertificate example_db_other 10 ''k1'' ''s1'' ''c1'' = (res, db1)"
    and 2: "getCertificate db1 11 ''k2'' ''s1'' ''c1'' = (res, db1)"
    and 3: "certificates db1 = certificates example_db_other @
              [\<lparr>cert_id = ''k1'', cert_student_id = ''s1'', cert_course_id = ''c1'',
                cert_issued_at = 10, cert_certificate_url = None\<rparr>]"
    and 4: "users db1 = users example_db_other" "courses db1 = courses example_db_other"
      "chapters db1 = chapters example_db_other"
      "course_assignments db1 = course_assignments example_db_other"
      "progress db1 = progress example_db_other"
    and 5: "[cert \<leftarrow> certificates db1. cert_student_id cert = ''s1'' \<and> cert_course_id cert = ''c1''] =
              cert # rest"
    and 6: "u \<in> set (users example_db_other)" "u_id u = ''s1''"
      "c \<in> set (courses example_db_other)" "c_id c = ''c1''"
    and 7: "res = (200, Payload (CertificatePDF
                          \<lparr>student_name = u_full_name u, course_title = c_title c,
                           completion_date = cert_issued_at cert,
                           certificate_id = cert_id cert\<rparr>))"
    by blast
  from 3 4 have db1: "db1 = example_db_issued"
    by (simp add: example_defs)
  from 5 have "cert = \<lparr>cert_id = ''k1'', cert_student_id = ''s1'', cert_course_id = ''c1'',
                cert_issued_at = 10, cert_certificate_url = None\<rparr>"
    unfolding 3 by (simp add: example_defs)
  moreover from 6 have "u_full_name u = ''Sam''" "c_title c = ''Course''"
    by (auto simp: example_defs)
  ultimately have "res = (200, Payload (CertificatePDF
        \<lparr>student_name = ''Sam'', course_title = ''Course'', completion_date = 10,
         certificate_id = ''k1''\<rparr>))"
    using 7 by simp
  with 1 2 db1 h ids show ?thesis by simp
qed

section \<open>completeChapter: the percentage\<close>

lemma filter_one_to_eq: "[j \<leftarrow> one_to N. j = i] = (if 1 \<le> i \<and> i \<le> N then [i] else [])"
  unfolding one_to_def by (induction N) auto

lemma length_filter_one_to: "length [j \<leftarrow> one_to N. j \<le> n] = min n N"
  unfolding one_to_def by (induction N) auto

lemma length_one_to: "length (one_to N) = N"
  by (simp add: one_to_def)

lemma one_to_Suc: "one_to (Suc n) = one_to n @ [Suc n]"
  by (simp add: one_to_def)

lemma one_to_pos: "i \<in> set (one_to N) \<Longrightarrow> 1 \<le> i"
  unfolding one_to_def by (simp only: set_upt) simp

lemma linear_chapter_by_id:
  "[ch \<leftarrow> chapters (linear_course N n). ch_id ch = i] =
     (if 1 \<le> i \<and> i \<le> N then [linear_chapter i] else [])"
  by (simp add: linear_course_def filter_map o_def linear_chapter_def filter_one_to_eq)

lemma linear_chapter_by_order:
  "[ch \<leftarrow> chapters (linear_course N n). ch_course_id ch = 0 \<and> sequence_order ch = int i] =
     (if 1 \<le> i \<and> i \<le> N then [linear_chapter i] else [])"
  by (simp add: linear_course_def filter_map o_def linear_chapter_def filter_one_to_eq)

lemma linear_progress_of:
  "progress_of (linear_course N n) 0 i = (if 1 \<le> i \<and> i \<le> n then [linear_progress i] else [])"
  by (simp add: progress_of_def linear_course_def filter_map o_def linear_progress_def filter_one_to_eq)

lemma linear_completion_rows:
  "completion_rows (linear_course N n) 0 0 =
     map (\<lambda>i. (linear_chapter i, if i \<le> n then Some (linear_progress i) else None)) (one_to N)"
proof -
  have cc: "course_chapters (linear_course N n) 0 = map linear_chapter (one_to N)"
    by (simp add: course_chapters_def linear_course_def linear_chapter_def filter_map o_def)
  have "concat (map (\<lambda>i. if progress_of (linear_course N n) 0 (ch_id (linear_chapter i)) = []
                          then [(linear_chapter i, None)]
                          else map (\<lambda>y'. (linear_chapter i, Some y'))
                                 (progress_of (linear_course N n) 0 (ch_id (linear_chapter i)))) xs) =
        map (\<lambda>i. (linear_chapter i, if i \<le> n then Some (linear_progress i) else None)) xs"
    if "\<forall>i \<in> set xs. 1 \<le> i" for xs
    using that
  proof (induction xs)
    case Nil
    then show ?case by simp
  next
    case (Cons i xs)
    have "ch_id (linear_chapter i) = i" by (simp add: linear_chapter_def)
    with Cons show ?case by (simp add: linear_progress_of)
  qed
  with one_to_pos show ?thesis
    by (simp add: completion_rows_def cc left_join_alt o_def)
qed

lemma linear_counts:
  "total_chapters (linear_course N n) 0 0 = int N"
  "completed_chapters (linear_course N n) 0 0 = int (min n N)"
proof -
  show "total_chapters (linear_course N n) 0 0 = int N"
    by (simp add: total_chapters_def linear_completion_rows length_one_to)
  have "[r \<leftarrow> map (\<lambda>i. (linear_chapter i, if i \<le> n then Some (linear_progress i) else None)) xs.
           completed_col (snd r) = Some True] =
        map (\<lambda>i. (linear_chapter i, if i \<le> n then Some (linear_progress i) else None)) [i \<leftarrow> xs. i \<le> n]" for xs
    by (induction xs) (auto simp: completed_col_def linear_progress_def)
  then show "completed_chapters (linear_course N n) 0 0 = int (min n N)"
    by (simp add: completed_chapters_def linear_completion_rows length_filter_one_to)
qed

lemma complete_linear:
  assumes "n < N"
  shows "completeChapter (linear_course N n) (Suc n) (Suc n) 0 (Suc n) =
           ((200, Payload
               \<lparr>cb_message = ''Chapter completed successfully'',
                cb_progress = linear_progress (Suc n),
                cb_completion =
                  \<lparr>c_total_chapters = int N, c_completed_chapters = int (Suc n),
                   c_percentage = round2 (completionPercentage (int (Suc n)) (int N))\<rparr>\<rparr>),
            linear_course N (Suc n))"
proof -
  have ch: "[ch \<leftarrow> chapters (linear_course N n). ch_id ch = Suc n] = [linear_chapter (Suc n)]"
    using assms by (simp add: linear_chapter_by_id)
  have enr: "enrollmentCheck (linear_course N n) 0 0 \<noteq> []"
    by (simp add: enrollmentCheck_def linear_course_def)
  have gate: "\<not> (1 < int (Suc n) \<and> gate_fails (previousChapterCheck (linear_course N n) 0 0 (int (Suc n) - 1)))"
  proof (cases n)
    case 0
    then show ?thesis by simp
  next
    case (Suc k)
    have i: "int (Suc n) - 1 = int n" by simp
    have "1 \<le> n \<and> n \<le> N" using assms Suc by simp
    then have f: "[ch \<leftarrow> chapters (linear_course N n). ch_course_id ch = 0 \<and> sequence_order ch = int n] = [linear_chapter n]"
      by (simp only: linear_chapter_by_order if_True simp_thms)
    have "ch_id (linear_chapter n) = n" by (simp add: linear_chapter_def)
    moreover have "1 \<le> n \<and> n \<le> n" using Suc by simp
    ultimately have p: "progress_of (linear_course N n) 0 (ch_id (linear_chapter n)) = [linear_progress n]"
      by (simp only: linear_progress_of if_True simp_thms)
    have "previousChapterCheck (linear_course N n) 0 0 (int n) = [Some True]"
      unfolding previousChapterCheck_def f
      by (simp add: left_join_alt p completed_col_def linear_progress_def)
    with i show ?thesis by (simp add: gate_fails_def)
  qed
  have none: "progress_of (linear_course N n) 0 (Suc n) = []"
    by (simp add: linear_progress_of)
  have up: "upsert_progress (linear_course N n) (Suc n) (Suc n) 0 (Suc n) 0 =
              (linear_course N (Suc n), linear_progress (Suc n))"
    unfolding upsert_progress_def
    by (simp only: none list.case Let_def) (simp add: linear_course_def linear_progress_def one_to_Suc)
  have c: "ch_course_id (linear_chapter (Suc n)) = 0" "sequence_order (linear_chapter (Suc n)) = int (Suc n)"
    by (simp_all add: linear_chapter_def)
  have m: "min (Suc n) N = Suc n" using assms by simp
  have ok: "complete_ok (linear_course N n) (Suc n) (Suc n) 0 (Suc n) (linear_chapter (Suc n)) =
           ((200, Payload
               \<lparr>cb_message = ''Chapter completed successfully'',
                cb_progress = linear_progress (Suc n),
                cb_completion =
                  \<lparr>c_total_chapters = int N, c_completed_chapters = int (Suc n),
                   c_percentage = round2 (completionPercentage (int (Suc n)) (int N))\<rparr>\<rparr>),
            linear_course N (Suc n))"
    unfolding complete_ok_def c up
    by (simp only: Let_def case_prod_conv linear_counts m)
  show ?thesis
    unfolding completeChapter_def ch
    using enr gate by (simp only: list.case c none ok if_False if_True simp_thms)
qed


lemma percentage_values:
  "round2 (completionPercentage 1 3) = literal2 3333"
  "round2 (completionPercentage 2 3) = literal2 6667"
  "round2 (completionPercentage 3 3) = literal2 10000"
  "round2 (completionPercentage 23 160) = literal2 1437"
  by code_simp+

text \<open>
  The example of the specification, on the three-chapter course: completing the first
  chapter returns 33.33, the second 66.67, the third 100.00.
\<close>

lemma three_chapter_percentages:
  "completion_view (fst (completeChapter (linear_course 3 0) 1 1 0 1)) =
     Some (200, \<lparr>c_total_chapters = 3, c_completed_chapters = 1, c_percentage = literal2 3333\<rparr>)"
  "completion_view (fst (completeChapter (linear_course 3 1) 2 2 0 2)) =
     Some (200, \<lparr>c_total_chapters = 3, c_completed_chapters = 2, c_percentage = literal2 6667\<rparr>)"
  "completion_view (fst (completeChapter (linear_course 3 2) 3 3 0 3)) =
     Some (200, \<lparr>c_total_chapters = 3, c_completed_chapters = 3, c_percentage = literal2 10000\<rparr>)"
  using complete_linear [of 0 3] complete_linear [of 1 3] complete_linear [of 2 3]
  by (simp_all add: completion_view_def percentage_values eval_nat_numeral)

text \<open>
  C5. On a course of 160 chapters, the student who has completed 22 completes the 23rd.
  The handler returns the percentage 14.37. The exact value is 14.375: rounded half up to
  two decimals it is 14.38, which is also what \<open>ROUND(..., 2)\<close> of the read handlers
  reports for the same store. (\<open>23 / 160 * 100 * 100\<close> is 1437.4999999999998 in binary64,
  and \<open>Math.round\<close> of it is 1437.)
\<close>

theorem complete_percentage_23_of_160:
  "completion_view (fst (completeChapter (linear_course 160 22) 23 23 0 23)) =
     Some (200, \<lparr>c_total_chapters = 160, c_completed_chapters = 23,
                  c_percentage = literal2 1437\<rparr>) \<and>
   half_up_hundredths 23 160 = 1438 \<and>
   sql_percentage 23 160 = Some (1438 / 100) \<and>
   literal2 1437 \<noteq> literal2 1438"
proof -
  have 1: "completion_view (fst (completeChapter (linear_course 160 22) 23 23 0 23)) =
     Some (200, \<lparr>c_total_chapters = 160, c_completed_chapters = 23,
                  c_percentage = literal2 1437\<rparr>)"
    using complete_linear [of 22 160] by (simp add: completion_view_def percentage_values)
  have 2: "half_up_hundredths 23 160 = 1438"
    by (simp add: half_up_hundredths_def)
  have 3: "sql_percentage 23 160 = Some (1438 / 100)"
    by (simp add: sql_percentage_def)
  have 4: "literal2 1437 \<noteq> literal2 1438"
    by code_simp
  from 1 2 3 4 show ?thesis by blast
qed


section \<open>The rounding of the percentage\<close>

lemma bitlen_mono: "a \<le> b \<Longrightarrow> bitlen a \<le> bitlen b"
  by (simp add: bitlen_def floorlog_mono)

lemma exponent_less:
  assumes p: "0 < p" and q: "0 < q" and lt: "p < q * 2 ^ n"
  shows "exponent p q \<le> int n - 1"
proof -
  let ?k = "bitlen p - bitlen q"
  from lt have "bitlen p \<le> bitlen (q * 2 ^ n)" by (intro bitlen_mono) simp
  with q have k: "?k \<le> int n" by simp
  show ?thesis
  proof (cases "?k = int n")
    case True
    then have "0 \<le> ?k" and "nat ?k = n" by simp_all
    with lt have "\<not> (if 0 \<le> ?k then q * 2 ^ nat ?k \<le> p else q \<le> p * 2 ^ nat (- ?k))"
      by simp
    then have "exponent p q = ?k - 1" by (simp add: exponent_def Let_def)
    with True show ?thesis by simp
  next
    case False
    with k have "?k \<le> int n - 1" by simp
    moreover have "exponent p q \<le> ?k" by (simp add: exponent_def Let_def)
    ultimately show ?thesis by simp
  qed
qed

lemma round_half_even_le:
  assumes D: "0 < D" and le: "N \<le> K * D"
  shows "round_half_even N D \<le> K"
proof -
  have m0: "N div D \<le> K"
  proof (rule ccontr)
    assume "\<not> N div D \<le> K"
    then have "K + 1 \<le> N div D" by simp
    with D have "D * (K + 1) \<le> D * (N div D)" by (intro mult_left_mono) simp_all
    also have "\<dots> \<le> N" using mult_div_mod_eq [of D N] pos_mod_sign [OF D, of N] by linarith
    finally show False using le D by (simp add: algebra_simps)
  qed
  show ?thesis
  proof (cases "N div D = K")
    case True
    have "N = D * (N div D) + N mod D" by simp
    with True le have "N mod D \<le> 0" by (simp add: mult.commute)
    with D have "2 * (N mod D) < D" by simp
    with True show ?thesis by (simp add: round_half_even_def Let_def)
  next
    case False
    with m0 have "N div D + 1 \<le> K" by simp
    then show ?thesis by (auto simp: round_half_even_def Let_def)
  qed
qed

lemma round_half_even_less:
  assumes D: "0 < D" and lt: "2 * N < (2 * J - 1) * D"
  shows "round_half_even N D \<le> J - 1"
proof -
  from lt D have "2 * N < 2 * (J * D)" by (simp add: algebra_simps)
  then have "N < J * D" by simp
  have m0: "N div D < J"
  proof (rule ccontr)
    assume "\<not> N div D < J"
    then have "J \<le> N div D" by simp
    with D have "D * J \<le> D * (N div D)" by (intro mult_left_mono) simp_all
    also have "\<dots> \<le> N" using mult_div_mod_eq [of D N] pos_mod_sign [OF D, of N] by linarith
    finally show False using \<open>N < J * D\<close> by (simp add: algebra_simps)
  qed
  show ?thesis
  proof (cases "N div D = J - 1")
    case True
    have "N = D * (N div D) + N mod D" by simp
    with True have "N mod D = N - D * (J - 1)" by (metis add_diff_cancel_left')
    with lt have "2 * (N mod D) < D" by (simp add: algebra_simps)
    with True show ?thesis by (simp add: round_half_even_def Let_def)
  next
    case False
    with m0 have "N div D + 1 \<le> J - 1" by simp
    then show ?thesis by (auto simp: round_half_even_def Let_def)
  qed
qed


lemma rnd_scaled:
  assumes p: "0 < p" and e: "exponent p q \<le> 52"
  shows "rnd p q =
           (if round_half_even (p * 2 ^ nat (52 - exponent p q)) q = 2 ^ 53
            then Finite (2 ^ 52) (1 - int (nat (52 - exponent p q)))
            else Finite (round_half_even (p * 2 ^ nat (52 - exponent p q)) q)
                   (- int (nat (52 - exponent p q))))"
proof -
  from e have "0 \<le> 52 - exponent p q" by simp
  moreover from e have "exponent p q - 51 = 1 - int (nat (52 - exponent p q))"
    and "exponent p q - 52 = - int (nat (52 - exponent p q))" by simp_all
  ultimately show ?thesis using p by (simp add: rnd_def Let_def)
qed

lemma js_less_iff: "0 < L \<Longrightarrow> js_less (Finite m (- int L)) n = (m < n * 2 ^ L)"
proof -
  assume "0 < L"
  have pos: "(0 :: rat) < of_int (2 ^ L)" by simp
  have "(of_int m / of_int (2 ^ L) < (of_int n :: rat)) = ((of_int m :: rat) < of_int n * of_int (2 ^ L))"
    using pos by (rule pos_divide_less_eq)
  also have "\<dots> = (m < n * 2 ^ L)"
    by (simp only: of_int_mult [symmetric] of_int_less_iff)
  finally show ?thesis using \<open>0 < L\<close> by simp
qed

lemma rnd_below_one:
  assumes c: "0 < c" and lt: "c < t" and t: "t \<le> 2 ^ 53"
  shows "\<exists>M L. rnd c t = Finite M (- int L) \<and> 52 \<le> L \<and> M * 2 ^ 53 \<le> (2 ^ 53 - 1) * 2 ^ L"
proof -
  from c lt have tpos: "0 < t" by simp
  from lt have "c < t * 2 ^ 0" by simp
  from exponent_less [OF c tpos this] have e: "exponent c t \<le> - 1" by simp
  define j where "j = nat (52 - exponent c t) - 53"
  from e have S: "nat (52 - exponent c t) = 53 + j" unfolding j_def by simp
  define P :: int where "P = 2 ^ j"
  have P: "0 < P" unfolding P_def by simp
  let ?m = "round_half_even (c * 2 ^ (53 + j)) t"
  have pw: "(2 :: int) ^ (53 + j) = 2 ^ 53 * P" unfolding P_def by (simp add: power_add)
  from lt t have "2 ^ 53 * c \<le> (2 ^ 53 - 1) * t" by simp
  with P have "P * (2 ^ 53 * c) \<le> P * ((2 ^ 53 - 1) * t)" by (intro mult_left_mono) simp_all
  then have "c * 2 ^ (53 + j) \<le> ((2 ^ 53 - 1) * P) * t" unfolding pw by (simp add: algebra_simps)
  from round_half_even_le [OF tpos this] have m: "?m \<le> (2 ^ 53 - 1) * P" .
  from e have r: "rnd c t = (if ?m = 2 ^ 53 then Finite (2 ^ 52) (1 - int (53 + j))
                            else Finite ?m (- int (53 + j)))"
    using rnd_scaled [OF c, of t] S by simp
  show ?thesis
  proof (cases "?m = 2 ^ 53")
    case True
    with r have "rnd c t = Finite (2 ^ 52) (- int (52 + j))" by simp
    moreover have "52 \<le> 52 + j" by simp
    moreover have "(2 :: int) ^ 52 * 2 ^ 53 \<le> (2 ^ 53 - 1) * 2 ^ (52 + j)"
    proof -
      from m True have "2 ^ 53 \<le> (2 ^ 53 - 1) * P" by simp
      then have "2 ^ 52 * 2 ^ 53 \<le> 2 ^ 52 * ((2 ^ 53 - 1) * P)" by (intro mult_left_mono) simp_all
      also have "\<dots> = (2 ^ 53 - 1) * 2 ^ (52 + j)" unfolding P_def by (simp add: power_add)
      finally show ?thesis .
    qed
    ultimately show ?thesis by blast
  next
    case False
    with r have "rnd c t = Finite ?m (- int (53 + j))" by simp
    moreover have "52 \<le> 53 + j" by simp
    moreover have "?m * 2 ^ 53 \<le> (2 ^ 53 - 1) * 2 ^ (53 + j)"
    proof -
      from m have "?m * 2 ^ 53 \<le> ((2 ^ 53 - 1) * P) * 2 ^ 53" by (intro mult_right_mono) simp_all
      also have "\<dots> = (2 ^ 53 - 1) * 2 ^ (53 + j)" unfolding pw by simp
      finally show ?thesis .
    qed
    ultimately show ?thesis by blast
  qed
qed


lemma times_100_below:
  assumes L: "52 \<le> L" and M: "M * 2 ^ 53 \<le> (2 ^ 53 - 1) * 2 ^ L"
  shows "js_less (js_times (Finite M (- int L)) 100) 100"
proof -
  define Q :: int where "Q = 2 ^ L"
  have Q: "0 < Q" unfolding Q_def by simp
  from L have neg: "\<not> 0 \<le> - int L" by simp
  have jt: "js_times (Finite M (- int L)) 100 = rnd (M * 100) Q"
    using neg unfolding Q_def by simp
  show ?thesis
  proof (cases "0 < M")
    case False
    then have "rnd (M * 100) Q = Finite 0 0" by (simp add: rnd_def)
    with jt show ?thesis by simp
  next
    case True
    then have p: "0 < M * 100" by simp
    from M have M': "2 ^ 53 * M \<le> (2 ^ 53 - 1) * Q" unfolding Q_def by (simp add: mult.commute)
    with Q have "M * 100 < Q * 2 ^ 7" by simp
    from exponent_less [OF p Q this] have e: "exponent (M * 100) Q \<le> 6" by simp
    define j where "j = nat (52 - exponent (M * 100) Q) - 46"
    from e have S: "nat (52 - exponent (M * 100) Q) = 46 + j" unfolding j_def by simp
    define P :: int where "P = 2 ^ j"
    have P: "1 \<le> P" unfolding P_def by simp
    have pw: "(2 :: int) ^ (46 + j) = 2 ^ 46 * P" unfolding P_def by (simp add: power_add)
    let ?m = "round_half_even (M * 100 * 2 ^ (46 + j)) Q"
    have "2 * (M * 100 * 2 ^ (46 + j)) < (2 * (100 * 2 ^ (46 + j)) - 1) * Q"
    proof -
      define X where "X = P * M"
      define Y where "Y = P * Q"
      from M' P have "P * (2 ^ 53 * M) \<le> P * ((2 ^ 53 - 1) * Q)"
        by (intro mult_left_mono) simp_all
      then have a: "2 ^ 53 * X \<le> (2 ^ 53 - 1) * Y"
        unfolding X_def Y_def by (simp only: ac_simps)
      from P Q have "1 * Q \<le> P * Q" by (intro mult_right_mono) simp_all
      then have b: "Q \<le> Y" unfolding Y_def by simp
      from a b Q have c: "200 * 2 ^ 46 * X < 200 * 2 ^ 46 * Y - Q" by simp
      have "2 * (M * 100 * (2 ^ 46 * P)) = 200 * 2 ^ 46 * X"
        unfolding X_def by simp
      moreover have "(2 * (100 * (2 ^ 46 * P)) - 1) * Q = 200 * 2 ^ 46 * Y - Q"
        unfolding Y_def by (simp add: algebra_simps)
      ultimately show ?thesis unfolding pw using c by simp
    qed
    from round_half_even_less [OF Q this] have m: "?m \<le> 100 * 2 ^ (46 + j) - 1" .
    from e have r: "rnd (M * 100) Q = (if ?m = 2 ^ 53 then Finite (2 ^ 52) (1 - int (46 + j))
                            else Finite ?m (- int (46 + j)))"
      using rnd_scaled [OF p, of Q] S by simp
    show ?thesis
    proof (cases "?m = 2 ^ 53")
      case True
      with r have "rnd (M * 100) Q = Finite (2 ^ 52) (- int (45 + j))" by simp
      moreover have "(2 :: int) ^ 52 < 100 * 2 ^ (45 + j)"
      proof -
        from m True have "(2 :: int) ^ 53 < 100 * 2 ^ (46 + j)" by simp
        then have "2 * (2 :: int) ^ 52 < 2 * (100 * 2 ^ (45 + j))" by (simp add: power_add)
        then show ?thesis by simp
      qed
      ultimately show ?thesis unfolding jt by (simp only: js_less_iff [of "45 + j"] add_pos_nonneg zero_less_numeral simp_thms)
    next
      case False
      with r have "rnd (M * 100) Q = Finite ?m (- int (46 + j))" by simp
      moreover from m have "?m < 100 * 2 ^ (46 + j)" by simp
      ultimately show ?thesis unfolding jt by (simp only: js_less_iff [of "46 + j"] add_pos_nonneg zero_less_numeral simp_thms)
    qed
  qed
qed

lemma percentage_below_100:
  assumes "0 \<le> c" and "c < t" and "t \<le> 2 ^ 53"
  shows "js_less (completionPercentage c t) 100"
proof (cases "c = 0")
  case True
  with assms show ?thesis
    by (simp add: completionPercentage_def js_div_int_def rnd_def)
next
  case False
  with assms have "0 < c" by simp
  from rnd_below_one [OF this assms(2) assms(3)] obtain M L where
    "rnd c t = Finite M (- int L)" "52 \<le> L" "M * 2 ^ 53 \<le> (2 ^ 53 - 1) * 2 ^ L" by blast
  with times_100_below [of L M] assms show ?thesis
    by (simp add: completionPercentage_def js_div_int_def)
qed

lemma rnd_same: "0 < t \<Longrightarrow> rnd t t = Finite (2 ^ 52) (- 52)"
proof -
  assume t: "0 < t"
  have e: "exponent t t = 0" by (simp add: exponent_def)
  have "round_half_even (t * 2 ^ 52) t = 2 ^ 52"
    using t by (simp add: round_half_even_def)
  with rnd_scaled [OF t, of t] e show ?thesis by simp
qed

lemma percentage_100:
  assumes "0 < t"
  shows "completionPercentage t t = literal2 10000" and "\<not> js_less (completionPercentage t t) 100"
proof -
  have 1: "js_times (Finite (2 ^ 52) (- 52)) 100 = literal2 10000" by code_simp
  have 2: "\<not> js_less (literal2 10000) 100" by code_simp
  from assms have "js_div_int t t = Finite (2 ^ 52) (- 52)"
    by (simp add: js_div_int_def rnd_same)
  then show "completionPercentage t t = literal2 10000"
    unfolding completionPercentage_def by (simp only: 1)
  with 2 show "\<not> js_less (completionPercentage t t) 100" by simp
qed


lemma completed_le_total:
  "0 \<le> completed_chapters db studentId courseId \<and>
   completed_chapters db studentId courseId \<le> total_chapters db studentId courseId"
  by (simp add: completed_chapters_def total_chapters_def)

lemma total_zero_iff:
  "total_chapters db studentId courseId = 0 \<longleftrightarrow> course_chapters db courseId = []"
proof
  assume "total_chapters db studentId courseId = 0"
  then have e: "completion_rows db studentId courseId = []" by (simp add: total_chapters_def)
  show "course_chapters db courseId = []"
  proof (rule ccontr)
    assume "course_chapters db courseId \<noteq> []"
    then obtain ch where "ch \<in> set (course_chapters db courseId)"
      by (cases "course_chapters db courseId") auto
    from left_join_covers [OF this, of "\<lambda>ch. progress_of db studentId (ch_id ch)"] e
    show False by (auto simp: completion_rows_def)
  qed
next
  assume "course_chapters db courseId = []"
  then show "total_chapters db studentId courseId = 0"
    by (simp add: total_chapters_def completion_rows_def left_join_def)
qed

lemma exact_percentage_100:
  "0 < t \<Longrightarrow> (exact_percentage c t = 100) = (c = t)"
  by (simp add: exact_percentage_def field_simps)

lemma course_rows_empty:
  assumes "course_chapters db courseId = []"
  shows "course_rows db studentId courseId base = map (\<lambda>b. (None, None)) base"
proof -
  have 1: "left_join base (\<lambda>c. sort_key sequence_order (course_chapters db courseId)) =
             map (\<lambda>b. (b, None)) base"
    using assms by (induction base) (simp_all add: left_join_def)
  have 2: "left_join (map (\<lambda>b. (b, None)) base)
             (\<lambda>(c, ch). case ch of None \<Rightarrow> [] | Some ch' \<Rightarrow> progress_of db studentId (ch_id ch')) =
           map (\<lambda>b. ((b, None), None)) base"
    by (induction base) (simp_all add: left_join_def)
  show ?thesis unfolding course_rows_def 1 2 by simp
qed

lemma zero_chapter_aggregate:
  assumes "course_chapters db courseId = []"
  shows "count_chapters (course_rows db studentId courseId base) = 0"
    and "sql_percentage (count_completed (course_rows db studentId courseId base))
           (count_chapters (course_rows db studentId courseId base)) = None"
proof -
  show z: "count_chapters (course_rows db studentId courseId base) = 0"
    by (simp add: course_rows_empty [OF assms] count_chapters_def)
  show "sql_percentage (count_completed (course_rows db studentId courseId base))
           (count_chapters (course_rows db studentId courseId base)) = None"
    unfolding z by (simp add: sql_percentage_def)
qed

lemma zero_chapter_progress:
  assumes z: "course_chapters db courseId = []"
  shows "getCourseProgress db studentId courseId = (200, Payload r) \<Longrightarrow>
           cp_total_chapters r = 0 \<and> cp_completion_percentage r = None"
    and "getMyProgress db studentId (Some courseId) = (200, Payload rs) \<Longrightarrow> r' \<in> set rs \<Longrightarrow>
           cp_total_chapters r' = 0 \<and> cp_completion_percentage r' = None"
proof -
  assume "getCourseProgress db studentId courseId = (200, Payload r)"
  then show "cp_total_chapters r = 0 \<and> cp_completion_percentage r = None"
    by (auto simp: getCourseProgress_def Let_def zero_chapter_aggregate [OF z] sql_percentage_def
        split: if_splits list.splits)
next
  assume "getMyProgress db studentId (Some courseId) = (200, Payload rs)" and "r' \<in> set rs"
  then show "cp_total_chapters r' = 0 \<and> cp_completion_percentage r' = None"
    by (auto simp: getMyProgress_def Let_def zero_chapter_aggregate [OF z] sql_percentage_def
        split: if_splits list.splits prod.splits)
qed

text \<open>
  C7, as the handlers have it. For an enrolled student (and at most \<open>2 ^ 53\<close> joined
  rows, where binary64 holds the counts exactly) \<open>checkCertificateEligibility\<close> returns
  \<open>eligible = true\<close> exactly when the course has a chapter and the exact percentage is
  100, and then reports the percentage 100. A course without chapters is not eligible: the
  result has the message \<open>Course has no chapters\<close> and no percentage at all, nothing is
  divided, and the aggregates of \<open>getCourseProgress\<close> and \<open>getMyProgress\<close> report
  \<open>total_chapters = 0\<close> with a \<open>NULL\<close> percentage.
\<close>

theorem eligibility_iff:
  assumes enr: "enrollmentCheck db courseId studentId \<noteq> []"
    and bound: "total_chapters db studentId courseId \<le> 2 ^ 53"
  shows "(eligible (checkCertificateEligibility db studentId courseId) \<longleftrightarrow>
            0 < total_chapters db studentId courseId \<and>
            exact_percentage (completed_chapters db studentId courseId)
              (total_chapters db studentId courseId) = 100) \<and>
         (eligible (checkCertificateEligibility db studentId courseId) \<longrightarrow>
            percentage (checkCertificateEligibility db studentId courseId) = Some (literal2 10000)) \<and>
         (total_chapters db studentId courseId = 0 \<longrightarrow>
            checkCertificateEligibility db studentId courseId =
              \<lparr>eligible = False, message = Some ''Course has no chapters'', percentage = None\<rparr> \<and>
            (\<forall>r. getCourseProgress db studentId courseId = (200, Payload r) \<longrightarrow>
                 cp_total_chapters r = 0 \<and> cp_completion_percentage r = None) \<and>
            (\<forall>rs. getMyProgress db studentId (Some courseId) = (200, Payload rs) \<longrightarrow>
                 (\<forall>r \<in> set rs. cp_total_chapters r = 0 \<and> cp_completion_percentage r = None)))"
proof -
  let ?t = "total_chapters db studentId courseId"
  let ?c = "completed_chapters db studentId courseId"
  from completed_le_total [of db studentId courseId] have c: "0 \<le> ?c" "?c \<le> ?t" by simp_all
  show ?thesis
  proof (cases "?t = 0")
    case True
    then have z: "course_chapters db courseId = []" by (simp add: total_zero_iff)
    from True enr have "checkCertificateEligibility db studentId courseId =
              \<lparr>eligible = False, message = Some ''Course has no chapters'', percentage = None\<rparr>"
      by (simp add: checkCertificateEligibility_def Let_def)
    with True zero_chapter_progress [OF z] show ?thesis by auto
  next
    case False
    with c have pos: "0 < ?t" by simp
    show ?thesis
    proof (cases "?c = ?t")
      case True
      with pos percentage_100 [OF pos] enr False show ?thesis
        by (simp add: checkCertificateEligibility_def Let_def exact_percentage_100)
    next
      case ne: False
      with c have "?c < ?t" by simp
      from percentage_below_100 [OF c(1) this bound] enr False ne pos show ?thesis
        by (simp add: checkCertificateEligibility_def Let_def exact_percentage_100)
    qed
  qed
qed



theorem eligibility_iff_witness:
  "checkCertificateEligibility example_db_ABC ''s1'' ''c1'' =
     \<lparr>eligible = True, message = None, percentage = Some (literal2 10000)\<rparr> \<and>
   total_chapters example_db_ABC ''s1'' ''c1'' = 3 \<and>
   completed_chapters example_db_ABC ''s1'' ''c1'' = 3 \<and>
   exact_percentage 3 3 = 100 \<and>
   checkCertificateEligibility example_db_AB ''s1'' ''c1'' =
     \<lparr>eligible = False, message = Some ''Course not fully completed'',
      percentage = Some (literal2 6667)\<rparr> \<and>
   checkCertificateEligibility example_db ''s1'' ''c0'' =
     \<lparr>eligible = False, message = Some ''Course has no chapters'', percentage = None\<rparr>"
proof -
  have t: "total_chapters example_db_ABC ''s1'' ''c1'' = 3"
    and c: "completed_chapters example_db_ABC ''s1'' ''c1'' = 3"
    and t2: "total_chapters example_db_AB ''s1'' ''c1'' = 3"
    and c2: "completed_chapters example_db_AB ''s1'' ''c1'' = 2"
    and t0: "total_chapters example_db ''s1'' ''c0'' = 0"
    by (simp_all add: example_defs query_defs)
  have e: "enrollmentCheck example_db_ABC ''c1'' ''s1'' \<noteq> []"
    and e2: "enrollmentCheck example_db_AB ''c1'' ''s1'' \<noteq> []"
    and e0: "enrollmentCheck example_db ''c0'' ''s1'' \<noteq> []"
    by (simp_all add: example_defs enrollmentCheck_def)
  have b: "total_chapters example_db_ABC ''s1'' ''c1'' \<le> 2 ^ 53"
    and b0: "total_chapters example_db ''s1'' ''c0'' \<le> 2 ^ 53"
    unfolding t t0 by simp_all
  have x: "exact_percentage 3 3 = 100" by (simp add: exact_percentage_def)
  have 1: "checkCertificateEligibility example_db_ABC ''s1'' ''c1'' =
     \<lparr>eligible = True, message = None, percentage = Some (literal2 10000)\<rparr>"
    using eligibility_iff [OF e b] x unfolding t c
    by (simp add: checkCertificateEligibility_def e t c percentage_full)
  have l: "js_less (completionPercentage 2 3) 100" by code_simp
  have 2: "checkCertificateEligibility example_db_AB ''s1'' ''c1'' =
     \<lparr>eligible = False, message = Some ''Course not fully completed'',
      percentage = Some (literal2 6667)\<rparr>"
    unfolding checkCertificateEligibility_def
    by (simp only: Let_def t2 c2) (simp add: e2 l percentage_values)
  have 3: "checkCertificateEligibility example_db ''s1'' ''c0'' =
     \<lparr>eligible = False, message = Some ''Course has no chapters'', percentage = None\<rparr>"
    using eligibility_iff [OF e0 b0] t0 by simp
  from 1 2 3 t c x show ?thesis by simp
qed

text \<open>
  C7 as it is stated fails on the course without chapters: the eligibility result carries
  no percentage, rather than 0, and the aggregate of \<open>getMyProgress\<close> reports \<open>NULL\<close>,
  rather than 0.
\<close>

theorem zero_chapters_no_percentage:
  "percentage (checkCertificateEligibility example_db ''s1'' ''c0'') = None \<and>
   percentage (checkCertificateEligibility example_db ''s1'' ''c0'') \<noteq> Some (literal2 0) \<and>
   aggregate_view (getMyProgress example_db ''s1'' (Some ''c0'')) = (200, [(0, 0, None)]) \<and>
   aggregate_view (getMyProgress example_db ''s1'' (Some ''c0'')) \<noteq> (200, [(0, 0, Some 0)])"
  by (simp add: example_defs checkCertificateEligibility_def getMyProgress_def aggregate_view_def
      course_rows_def count_chapters_def count_completed_def sql_percentage_def Let_def
      query_defs)

end
